theory Spec2Isabelle
  imports Main
begin

section \<open>The parsed command tree\<close>

text \<open>
  The engine of \<^verbatim>\<open>cmd.c\<close> walks a tree built by the parser. The declarations of the
  tree live in headers that are not part of the sources, so the types below are read off
  the field accesses of \<^verbatim>\<open>cmd.c\<close>: every pointer the code tests against \<^verbatim>\<open>NULL\<close> is an
  \<open>option\<close>, with \<open>None\<close> for \<^verbatim>\<open>NULL\<close>.

  A \<^verbatim>\<open>word_t\<close> is one token fragment: its text (\<^verbatim>\<open>string\<close>), the flag \<^verbatim>\<open>expand\<close>, the next
  fragment of the same word (\<^verbatim>\<open>next_part\<close>) and the next word of a parameter list
  (\<^verbatim>\<open>next_word\<close>).
\<close>

datatype word_t = Word (string: "string option") (expand: bool)
  (next_part: "word_t option") (next_word: "word_t option")

record simple_command_t =
  verb :: "word_t option"
  params :: "word_t option"
  inp :: "word_t option"
  out :: "word_t option"
  err :: "word_t option"
  io_flags :: int

text \<open>
  \<^verbatim>\<open>cmd.c\<close> names six operator tags; \<open>OP_OTHER\<close> stands for any other value the tag field
  may hold (the \<^verbatim>\<open>default\<close> branch of the \<^verbatim>\<open>switch\<close>).
\<close>

datatype operator_t = OP_NONE | OP_SEQUENTIAL | OP_PARALLEL | OP_CONDITIONAL_ZERO
  | OP_CONDITIONAL_NZERO | OP_PIPE | OP_OTHER int

datatype command_t = Command (op: operator_t) (cmd1: "command_t option")
  (cmd2: "command_t option") (scmd: "simple_command_t option")

section \<open>The process and the operating system\<close>

text \<open>
  What the engine changes is made explicit as a \<open>world\<close>: the environment variables and
  the working directory of the shell process, its descriptor table, and the trace of the
  calls that reach beyond the process (every \<^verbatim>\<open>open\<close>, every \<^verbatim>\<open>fork\<close>, every \<^verbatim>\<open>execvp\<close> of a
  child). A descriptor refers to an open file description: one the process inherited, or
  the one created by the \<^verbatim>\<open>open\<close> call that stands at a given position of the trace.
\<close>

datatype open_mode = O_RDONLY | O_WRONLY_CREAT_APPEND | O_WRONLY_CREAT_TRUNC

datatype ofd = Inherited nat | Opened nat string open_mode

datatype event = EvOpen string open_mode bool | EvFork bool | EvExec string "string list"

datatype wstatus = WEXITED int | WSIGNALED int | WSTOPPED int

record world =
  env :: "string \<rightharpoonup> string"
  cwd :: string
  fds :: "nat \<rightharpoonup> ofd"
  trace :: "event list"

text \<open>
  The answers of the operating system that the code cannot compute are parameters:
  whether \<^verbatim>\<open>getcwd\<close> succeeds, where \<^verbatim>\<open>chdir\<close> on a path leads (\<open>None\<close>: it fails), whether
  \<^verbatim>\<open>access\<close> finds a path, whether a file can be opened in a mode, the size of the
  descriptor table, whether an allocation of a given size succeeds, whether \<^verbatim>\<open>fork\<close>
  succeeds, and how a program run by \<^verbatim>\<open>execvp\<close> ends (\<open>None\<close>: the image cannot be
  loaded and \<^verbatim>\<open>execvp\<close> returns).
\<close>

record os =
  getcwd_ok :: "world \<Rightarrow> bool"
  chdir_to :: "world \<Rightarrow> string \<Rightarrow> string option"
  access_ok :: "world \<Rightarrow> string \<Rightarrow> bool"
  open_ok :: "world \<Rightarrow> string \<Rightarrow> open_mode \<Rightarrow> bool"
  fd_limit :: nat
  malloc_ok :: "world \<Rightarrow> nat \<Rightarrow> bool"
  fork_ok :: "world \<Rightarrow> bool"
  execvp_run :: "world \<Rightarrow> string \<Rightarrow> string list \<Rightarrow> wstatus option"

text \<open>
  The constants and helpers that \<^verbatim>\<open>cmd.c\<close> takes from \<^verbatim>\<open>cmd.h\<close> and \<^verbatim>\<open>utils.h\<close> are
  parameters as well: \<^verbatim>\<open>FAILURE_CODE\<close>, \<^verbatim>\<open>SHELL_EXIT\<close>, what the macro call
  \<^verbatim>\<open>DIE(FAILURE_CODE, msg)\<close> does (\<open>Some c\<close>: it ends the process with status \<open>c\<close>;
  \<open>None\<close>: it reports and goes on), and the functions \<^verbatim>\<open>get_word\<close> and \<^verbatim>\<open>get_argv\<close>.
\<close>

record headers =
  FAILURE_CODE :: int
  SHELL_EXIT :: int
  DIE_exit :: "int option"
  get_word :: "world \<Rightarrow> word_t option \<Rightarrow> string"
  get_argv :: "world \<Rightarrow> simple_command_t \<Rightarrow> string list"

text \<open>
  Modelled from the spec: \<^verbatim>\<open>SUCCESS_CODE\<close> is defined in a header that is missing from
  the sources; the spec fixes the success status as 0.
\<close>

definition SUCCESS_CODE :: int where
  "SUCCESS_CODE = 0"

text \<open>
  A call returns a value, or ends the process (\<^verbatim>\<open>exit\<close>), or runs into behaviour that C
  leaves undefined (a \<^verbatim>\<open>NULL\<close> pointer passed to \<^verbatim>\<open>strlen\<close>, \<^verbatim>\<open>strcmp\<close>, \<^verbatim>\<open>getenv\<close> or
  \<^verbatim>\<open>setenv\<close>, or dereferenced; a write past the end of a buffer).
\<close>

datatype 'a exec = Return 'a | Exit int world | Undefined

definition and_then :: "'a exec \<Rightarrow> ('a \<Rightarrow> 'b exec) \<Rightarrow> 'b exec" where
  "and_then m k = (case m of Return x \<Rightarrow> k x | Exit c w \<Rightarrow> Exit c w | Undefined \<Rightarrow> Undefined)"

definition DIE :: "headers \<Rightarrow> world \<Rightarrow> 'a exec \<Rightarrow> 'a exec" where
  "DIE h w k = (case DIE_exit h of Some c \<Rightarrow> Exit c w | None \<Rightarrow> k)"

subsection \<open>Library calls\<close>

definition sys_getenv :: "world \<Rightarrow> string \<Rightarrow> string option" where
  "sys_getenv w name = env w name"

text \<open>
  \<^verbatim>\<open>setenv(name, value, 1)\<close> fails on an empty name, on a name that contains \<^verbatim>\<open>=\<close> and
  when the new entry cannot be allocated; otherwise it overwrites.
\<close>

definition sys_setenv :: "os \<Rightarrow> string \<Rightarrow> string \<Rightarrow> world \<Rightarrow> int \<times> world" where
  "sys_setenv os name val w =
     (if name = [] \<or> CHR ''='' \<in> set name \<or> \<not> malloc_ok os w (length name + length val + 2)
      then (- 1, w)
      else (0, w\<lparr>env := (env w)(name \<mapsto> val)\<rparr>))"

definition sys_getcwd :: "os \<Rightarrow> world \<Rightarrow> string option" where
  "sys_getcwd os w = (if getcwd_ok os w then Some (cwd w) else None)"

text \<open>\<^verbatim>\<open>chdir(NULL)\<close> fails (a bad address), as \<^verbatim>\<open>chdir\<close> on a path that leads nowhere.\<close>

definition sys_chdir :: "os \<Rightarrow> string option \<Rightarrow> world \<Rightarrow> int \<times> world" where
  "sys_chdir os path w =
     (case path of
        None \<Rightarrow> (- 1, w)
      | Some p \<Rightarrow>
          (case chdir_to os w p of
             None \<Rightarrow> (- 1, w)
           | Some d \<Rightarrow> (0, w\<lparr>cwd := d\<rparr>)))"

definition sys_access :: "os \<Rightarrow> string \<Rightarrow> world \<Rightarrow> int" where
  "sys_access os path w = (if access_ok os w path then 0 else - 1)"

definition lowest_free :: "os \<Rightarrow> world \<Rightarrow> nat option" where
  "lowest_free os w = find (\<lambda>n. fds w n = None) [0..<fd_limit os]"

definition sys_open :: "os \<Rightarrow> string \<Rightarrow> open_mode \<Rightarrow> world \<Rightarrow> int \<times> world" where
  "sys_open os path mode w =
     (case (if open_ok os w path mode then lowest_free os w else None) of
        None \<Rightarrow> (- 1, w\<lparr>trace := trace w @ [EvOpen path mode False]\<rparr>)
      | Some fd \<Rightarrow>
          (int fd, w\<lparr>fds := (fds w)(fd \<mapsto> Opened (length (trace w)) path mode),
                      trace := trace w @ [EvOpen path mode True]\<rparr>))"

definition sys_dup :: "os \<Rightarrow> int \<Rightarrow> world \<Rightarrow> int \<times> world" where
  "sys_dup os fd w =
     (if fd < 0 then (- 1, w)
      else (case fds w (nat fd) of
              None \<Rightarrow> (- 1, w)
            | Some f \<Rightarrow>
                (case lowest_free os w of
                   None \<Rightarrow> (- 1, w)
                 | Some n \<Rightarrow> (int n, w\<lparr>fds := (fds w)(n \<mapsto> f)\<rparr>))))"

definition sys_dup2 :: "os \<Rightarrow> int \<Rightarrow> int \<Rightarrow> world \<Rightarrow> int \<times> world" where
  "sys_dup2 os oldfd newfd w =
     (if oldfd < 0 \<or> newfd < 0 \<or> fd_limit os \<le> nat newfd then (- 1, w)
      else (case fds w (nat oldfd) of
              None \<Rightarrow> (- 1, w)
            | Some f \<Rightarrow> (newfd, w\<lparr>fds := (fds w)(nat newfd \<mapsto> f)\<rparr>)))"

definition sys_close :: "int \<Rightarrow> world \<Rightarrow> world" where
  "sys_close fd w = (if fd < 0 then w else w\<lparr>fds := (fds w)(nat fd := None)\<rparr>)"

definition STDIN_FILENO :: int where
  "STDIN_FILENO = 0"

definition STDOUT_FILENO :: int where
  "STDOUT_FILENO = 1"

definition STDERR_FILENO :: int where
  "STDERR_FILENO = 2"

section \<open>Word resolver\<close>

text \<open>
  \<^verbatim>\<open>expand_token\<close> returns a pointer: \<open>None\<close> is the \<^verbatim>\<open>NULL\<close> text of an unmarked fragment
  handed back as it is, and also the call \<^verbatim>\<open>getenv(NULL)\<close> of a marked fragment without
  text; the only caller passes the result to \<^verbatim>\<open>strlen\<close>, which is undefined on both.
\<close>

definition expand_token :: "world \<Rightarrow> word_t \<Rightarrow> string option" where
  "expand_token w word =
     (if expand word then
        (case string word of
           None \<Rightarrow> None
         | Some name \<Rightarrow>
             (case sys_getenv w name of
                None \<Rightarrow> Some []
              | Some env_value \<Rightarrow> Some env_value))
      else string word)"

text \<open>The first loop of \<^verbatim>\<open>token_to_string\<close>: the lengths of the remaining parts are added up.\<close>

fun count_length :: "world \<Rightarrow> word_t option \<Rightarrow> nat \<Rightarrow> nat option" where
  "count_length w None value_length = Some value_length"
| "count_length w (Some (Word s e np nw)) value_length =
     (case expand_token w (Word s e np nw) of
        None \<Rightarrow> None
      | Some v \<Rightarrow> count_length w np (value_length + length v))"

text \<open>
  The second loop: \<^verbatim>\<open>strcat\<close> appends each remaining part to the buffer of \<open>cap\<close> bytes.
  The buffer holds the string and its terminator; appending past its end is undefined.
\<close>

fun strcat_parts :: "world \<Rightarrow> word_t option \<Rightarrow> nat \<Rightarrow> string \<Rightarrow> string option" where
  "strcat_parts w None cap val = Some val"
| "strcat_parts w (Some (Word s e np nw)) cap val =
     (case expand_token w (Word s e np nw) of
        None \<Rightarrow> None
      | Some v \<Rightarrow>
          (if cap < length val + length v + 1 then None
           else strcat_parts w np cap (val @ v)))"

definition token_to_string :: "headers \<Rightarrow> os \<Rightarrow> world \<Rightarrow> word_t option \<Rightarrow> string option exec" where
  "token_to_string h os w token =
     (case token of
        None \<Rightarrow> Return None
      | Some t \<Rightarrow>
          (case expand_token w t of
             None \<Rightarrow> Undefined
           | Some first_value \<Rightarrow>
               (case count_length w (next_part t) (length first_value + 1) of
                  None \<Rightarrow> Undefined
                | Some value_length \<Rightarrow>
                    (if \<not> malloc_ok os w value_length then DIE h w (Return None)
                     else (case strcat_parts w (next_part t) value_length first_value of
                             None \<Rightarrow> Undefined
                           | Some val \<Rightarrow> Return (Some val))))))"

section \<open>Redirection manager\<close>

text \<open>
  One redirection as each of the three blocks of \<^verbatim>\<open>manage_redirections\<close> performs it:
  \<^verbatim>\<open>open\<close> the path, on failure \<^verbatim>\<open>DIE\<close> and clear the flag, otherwise \<^verbatim>\<open>dup2\<close> onto the
  standard descriptor (on failure \<^verbatim>\<open>DIE\<close> and clear the flag), and \<^verbatim>\<open>close\<close> the descriptor
  in every case.
\<close>

definition redirect ::
  "headers \<Rightarrow> os \<Rightarrow> string \<Rightarrow> open_mode \<Rightarrow> int \<Rightarrow> bool \<Rightarrow> world \<Rightarrow> (bool \<times> world) exec" where
  "redirect h os path mode target success w =
     (let (fd, w1) = sys_open os path mode w in
      if fd < 0 then DIE h w1 (Return (False, sys_close fd w1))
      else (let (r, w2) = sys_dup2 os fd target w1 in
            if r < 0 then DIE h w2 (Return (False, sys_close fd w2))
            else Return (success, sys_close fd w2)))"

text \<open>
  The last block: one more \<^verbatim>\<open>open\<close>, always truncating, bound to standard output and
  then (\<^verbatim>\<open>||\<close> stops at the first failure) to standard error.
\<close>

definition redirect_combined ::
  "headers \<Rightarrow> os \<Rightarrow> string \<Rightarrow> bool \<Rightarrow> world \<Rightarrow> (bool \<times> world) exec" where
  "redirect_combined h os path success w =
     (let (combined_fd, w1) = sys_open os path O_WRONLY_CREAT_TRUNC w in
      if combined_fd < 0 then DIE h w1 (Return (False, sys_close combined_fd w1))
      else (let (r1, w2) = sys_dup2 os combined_fd STDOUT_FILENO w1 in
            if r1 < 0 then DIE h w2 (Return (False, sys_close combined_fd w2))
            else (let (r2, w3) = sys_dup2 os combined_fd STDERR_FILENO w2 in
                  if r2 < 0 then DIE h w3 (Return (False, sys_close combined_fd w3))
                  else Return (success, sys_close combined_fd w3))))"

definition out_mode :: "int \<Rightarrow> open_mode" where
  "out_mode flags = (if flags \<noteq> 0 then O_WRONLY_CREAT_APPEND else O_WRONLY_CREAT_TRUNC)"

definition manage_redirections ::
  "headers \<Rightarrow> os \<Rightarrow> simple_command_t option \<Rightarrow> world \<Rightarrow> (bool \<times> world) exec" where
  "manage_redirections h os sp w =
     (case sp of
        None \<Rightarrow> Return (False, w)
      | Some s \<Rightarrow>
          and_then (if inp s \<noteq> None then token_to_string h os w (inp s) else Return None)
            (\<lambda>in_val.
          and_then (if out s \<noteq> None then token_to_string h os w (out s) else Return None)
            (\<lambda>out_val.
          and_then (if err s \<noteq> None then token_to_string h os w (err s) else Return None)
            (\<lambda>err_val.
          and_then
            (case (inp s, in_val) of
               (Some _, Some path) \<Rightarrow> redirect h os path O_RDONLY STDIN_FILENO True w
             | _ \<Rightarrow> Return (True, w))
            (\<lambda>(success, w).
          and_then
            (case (out s, out_val) of
               (Some _, Some path) \<Rightarrow>
                 redirect h os path (out_mode (io_flags s)) STDOUT_FILENO success w
             | _ \<Rightarrow> Return (success, w))
            (\<lambda>(success, w).
          and_then
            (case (err s, err_val) of
               (Some _, Some path) \<Rightarrow>
                 redirect h os path (out_mode (io_flags s)) STDERR_FILENO success w
             | _ \<Rightarrow> Return (success, w))
            (\<lambda>(success, w).
          (if out s \<noteq> None \<and> err s \<noteq> None then
             (case (out_val, err_val) of
                (Some out_path, Some err_path) \<Rightarrow>
                  (if out_path = err_path then redirect_combined h os out_path success w
                   else Return (success, w))
              | _ \<Rightarrow> Undefined)
           else Return (success, w)))))))))"

section \<open>Builtins\<close>

text \<open>
  \<^verbatim>\<open>return chdir(...)\<close> in a function that returns \<^verbatim>\<open>bool\<close>: the result is true exactly
  when \<^verbatim>\<open>chdir\<close> returns a nonzero value, that is, when it fails.
\<close>

definition return_chdir :: "os \<Rightarrow> string option \<Rightarrow> world \<Rightarrow> (bool \<times> world) exec" where
  "return_chdir os path w = (let (r, w1) = sys_chdir os path w in Return (r \<noteq> 0, w1))"

definition shell_cd :: "headers \<Rightarrow> os \<Rightarrow> word_t option \<Rightarrow> world \<Rightarrow> (bool \<times> world) exec" where
  "shell_cd h os dir w =
     (case sys_getcwd os w of
        None \<Rightarrow> DIE h w (Return (False, w))
      | Some oldpwd \<Rightarrow>
          (let (ret, w1) = sys_setenv os ''OLDPWD'' oldpwd w in
           if ret = - 1 then DIE h w1 (Return (False, w1))
           else
             (case dir of
                None \<Rightarrow> return_chdir os (sys_getenv w1 ''HOME'') w1
              | Some d \<Rightarrow>
                  (case string d of
                     None \<Rightarrow> Undefined
                   | Some str \<Rightarrow>
                       (if str = [] \<or> str = ''~'' then return_chdir os (sys_getenv w1 ''HOME'') w1
                        else if str = ''..'' then return_chdir os (Some ''..'') w1
                        else if str = ''.'' then Return (True, w1)
                        else if str = ''-'' then
                          (case sys_getenv w1 ''OLDPWD'' of
                             None \<Rightarrow> DIE h w1 (Return (False, w1))
                           | Some old \<Rightarrow> return_chdir os (Some old) w1)
                        else if sys_access os str w1 = 0 then return_chdir os (Some str) w1
                        else Return (True, w1))))))"

definition shell_exit :: "world \<Rightarrow> (int \<times> world) exec" where
  "shell_exit w = Exit SUCCESS_CODE w"

text \<open>
  \<^verbatim>\<open>execute_cd\<close> stores the \<^verbatim>\<open>bool\<close> of \<^verbatim>\<open>shell_cd\<close> in an \<^verbatim>\<open>int\<close> and returns it as the
  status: true becomes 1 and false becomes 0.
\<close>

definition execute_cd :: "headers \<Rightarrow> os \<Rightarrow> simple_command_t \<Rightarrow> world \<Rightarrow> (int \<times> world) exec" where
  "execute_cd h os s w =
     (let (original, w1) = sys_dup os STDOUT_FILENO w in
      if original < 0 then DIE h w1 (Return (FAILURE_CODE h, w1))
      else
        and_then (manage_redirections h os (Some s) w1)
          (\<lambda>(ok, w2).
             if \<not> ok then Return (FAILURE_CODE h, sys_close original w2)
             else
               and_then (shell_cd h os (params s) w2)
                 (\<lambda>(cd_result, w3).
                    (let (r, w4) = sys_dup2 os original STDOUT_FILENO w3 in
                     if r < 0 then DIE h w4 (Return (FAILURE_CODE h, sys_close original w4))
                     else Return (if cd_result then 1 else 0, sys_close original w4)))))"

definition execute_env_var_assignment ::
  "headers \<Rightarrow> os \<Rightarrow> simple_command_t \<Rightarrow> world \<Rightarrow> (int \<times> world) exec" where
  "execute_env_var_assignment h os s w =
     (case verb s of
        None \<Rightarrow> Undefined
      | Some v \<Rightarrow>
          (case string v of
             None \<Rightarrow> Undefined
           | Some var \<Rightarrow>
               (case next_part v of
                  None \<Rightarrow> Undefined
                | Some eq \<Rightarrow>
                    and_then (token_to_string h os w (next_part eq))
                      (\<lambda>new_value.
                         (case new_value of
                            None \<Rightarrow> Undefined
                          | Some val \<Rightarrow>
                              (let (ret, w1) = sys_setenv os var val w in
                               if ret = - 1 then DIE h w1 (Return (FAILURE_CODE h, w1))
                               else Return (SUCCESS_CODE, w1)))))))"

section \<open>External process launcher\<close>

text \<open>
  The branch \<^verbatim>\<open>pid == 0\<close>, as \<^verbatim>\<open>waitpid\<close> in the parent sees it: the child works on its
  own copy of the process state; \<^verbatim>\<open>exit(c)\<close> is reported as a normal exit with the low
  eight bits of \<open>c\<close>.
\<close>

definition child_process ::
  "headers \<Rightarrow> os \<Rightarrow> simple_command_t \<Rightarrow> world \<Rightarrow> (wstatus \<times> world) exec" where
  "child_process h os s w =
     (let command_path = get_word h w (verb s); argv = get_argv h w s in
      case manage_redirections h os (Some s) w of
        Return (ok, w1) \<Rightarrow>
          (if \<not> ok then Return (WEXITED (FAILURE_CODE h mod 256), w1)
           else
             (let w2 = w1\<lparr>trace := trace w1 @ [EvExec command_path argv]\<rparr> in
              case execvp_run os w2 command_path argv of
                None \<Rightarrow> Return (WEXITED (FAILURE_CODE h mod 256), w2)
              | Some status \<Rightarrow> Return (status, w2)))
      | Exit c w1 \<Rightarrow> Return (WEXITED (c mod 256), w1)
      | Undefined \<Rightarrow> Undefined)"

definition execute_external_command ::
  "headers \<Rightarrow> os \<Rightarrow> simple_command_t \<Rightarrow> world \<Rightarrow> (int \<times> world) exec" where
  "execute_external_command h os s w =
     (if \<not> fork_ok os w then
        (let w1 = w\<lparr>trace := trace w @ [EvFork False]\<rparr> in DIE h w1 (Return (SUCCESS_CODE, w1)))
      else
        and_then (child_process h os s (w\<lparr>trace := trace w @ [EvFork True]\<rparr>))
          (\<lambda>(status, wc).
             (let w1 = w\<lparr>trace := trace wc\<rparr> in
              case status of
                WEXITED code \<Rightarrow> Return (code, w1)
              | _ \<Rightarrow> Return (SUCCESS_CODE, w1))))"

section \<open>Operator evaluator\<close>

definition parse_simple ::
  "headers \<Rightarrow> os \<Rightarrow> simple_command_t option \<Rightarrow> world \<Rightarrow> (int \<times> world) exec" where
  "parse_simple h os sp w =
     (case sp of
        None \<Rightarrow> Return (FAILURE_CODE h, w)
      | Some s \<Rightarrow>
          (case verb s of
             None \<Rightarrow> Return (FAILURE_CODE h, w)
           | Some v \<Rightarrow>
               (case string v of
                  None \<Rightarrow> Return (FAILURE_CODE h, w)
                | Some name \<Rightarrow>
                    (if name = ''cd'' then execute_cd h os s w
                     else if name = ''exit'' \<or> name = ''quit'' then shell_exit w
                     else if (case next_part v of
                                None \<Rightarrow> False
                              | Some p \<Rightarrow>
                                  (case string p of
                                     None \<Rightarrow> False
                                   | Some ps \<Rightarrow> take 1 ps = ''=''))
                       then execute_env_var_assignment h os s w
                     else execute_external_command h os s w))))"

text \<open>The two operators the source leaves as stubs: both return \<^verbatim>\<open>true\<close>.\<close>

definition run_in_parallel :: "command_t option \<Rightarrow> command_t option \<Rightarrow> bool" where
  "run_in_parallel c1 c2 = True"

definition run_on_pipe :: "command_t option \<Rightarrow> command_t option \<Rightarrow> bool" where
  "run_on_pipe c1 c2 = True"

text \<open>
  The parameters \<^verbatim>\<open>level\<close> and \<^verbatim>\<open>father\<close> of the source are passed along and never read;
  they are left out. A branch that ended the process, or ran into undefined behaviour,
  ends the evaluation of the node.
\<close>

fun parse_command ::
  "headers \<Rightarrow> os \<Rightarrow> command_t option \<Rightarrow> world \<Rightarrow> (int \<times> world) exec" where
  "parse_command h os None w = Return (FAILURE_CODE h, w)"
| "parse_command h os (Some (Command tag c1 c2 s)) w =
     (case tag of
        OP_NONE \<Rightarrow> parse_simple h os s w
      | OP_SEQUENTIAL \<Rightarrow>
          (case parse_command h os c1 w of
             Return (r, w1) \<Rightarrow> parse_command h os c2 w1
           | Exit c w1 \<Rightarrow> Exit c w1
           | Undefined \<Rightarrow> Undefined)
      | OP_PARALLEL \<Rightarrow> Return (if run_in_parallel c1 c2 then 1 else 0, w)
      | OP_CONDITIONAL_NZERO \<Rightarrow>
          (case parse_command h os c1 w of
             Return (r, w1) \<Rightarrow>
               if r = 0 then Return (SUCCESS_CODE, w1) else parse_command h os c2 w1
           | Exit c w1 \<Rightarrow> Exit c w1
           | Undefined \<Rightarrow> Undefined)
      | OP_CONDITIONAL_ZERO \<Rightarrow>
          (case parse_command h os c1 w of
             Return (r, w1) \<Rightarrow>
               if r \<noteq> 0 then Return (SUCCESS_CODE, w1) else parse_command h os c2 w1
           | Exit c w1 \<Rightarrow> Exit c w1
           | Undefined \<Rightarrow> Undefined)
      | OP_PIPE \<Rightarrow> Return (if run_on_pipe c1 c2 then 1 else 0, w)
      | OP_OTHER n \<Rightarrow> Return (SHELL_EXIT h, w))"

section \<open>Observations and auxiliary notions\<close>

text \<open>The fragments of a word, in the order of the \<^verbatim>\<open>next_part\<close> links.\<close>

fun chain :: "word_t option \<Rightarrow> word_t list" where
  "chain None = []"
| "chain (Some (Word s e np nw)) = Word s e np nw # chain np"

text \<open>
  The status an evaluation returns to its caller (none when the process ended), and the
  state of the process when the evaluation returned or the process ended.
\<close>

fun status_of :: "(int \<times> world) exec \<Rightarrow> int option" where
  "status_of (Return (r, w)) = Some r"
| "status_of (Exit c w) = None"
| "status_of Undefined = None"

fun final_world :: "('a \<times> world) exec \<Rightarrow> world option" where
  "final_world (Return (r, w)) = Some w"
| "final_world (Exit c w) = Some w"
| "final_world Undefined = None"

text \<open>
  What the guard at the head of \<^verbatim>\<open>parse_simple\<close> rejects: an absent simple command, an
  absent verb, a verb whose text is \<^verbatim>\<open>NULL\<close>.
\<close>

definition null_verb :: "simple_command_t option \<Rightarrow> bool" where
  "null_verb sp =
     (case sp of
        None \<Rightarrow> True
      | Some s \<Rightarrow> (case verb s of None \<Rightarrow> True | Some v \<Rightarrow> string v = None))"

text \<open>
  A tree holds a terminate command when one of its nodes carries a simple command whose
  verb has the text \<^verbatim>\<open>exit\<close> or \<^verbatim>\<open>quit\<close>.
\<close>

fun has_terminate :: "command_t option \<Rightarrow> bool" where
  "has_terminate None = False"
| "has_terminate (Some (Command tag c1 c2 s)) =
     ((case s of
         None \<Rightarrow> False
       | Some sc \<Rightarrow>
           (case verb sc of
              None \<Rightarrow> False
            | Some v \<Rightarrow> string v = Some ''exit'' \<or> string v = Some ''quit''))
      \<or> has_terminate c1 \<or> has_terminate c2)"

text \<open>
  An evaluation returns when its outcome is a value handed back to the caller: the process
  has not ended and has not run into undefined behaviour.
\<close>

definition returns :: "'a exec \<Rightarrow> bool" where
  "returns m = (case m of Return x \<Rightarrow> True | Exit c w \<Rightarrow> False | Undefined \<Rightarrow> False)"

text \<open>
  The test of \<^verbatim>\<open>parse_simple\<close> for an assignment: the verb has a second fragment with a
  text whose first character is \<^verbatim>\<open>=\<close>. The names that \<^verbatim>\<open>parse_simple\<close> tests first.
\<close>

definition assignment_shape :: "word_t \<Rightarrow> bool" where
  "assignment_shape v =
     (case next_part v of
        None \<Rightarrow> False
      | Some p \<Rightarrow> (case string p of None \<Rightarrow> False | Some ps \<Rightarrow> take 1 ps = ''=''))"

definition builtin_name :: "string \<Rightarrow> bool" where
  "builtin_name name \<longleftrightarrow> name = ''cd'' \<or> name = ''exit'' \<or> name = ''quit''"

text \<open>
  The trees on which the engine dereferences no \<^verbatim>\<open>NULL\<close> text. A word has text when every
  fragment of its chain has one. A simple command is well formed when its three
  redirection words have text, its first parameter word (the argument of \<^verbatim>\<open>cd\<close>) has a
  text in its first fragment, and, if its verb passes the test for an assignment, the verb
  has a third fragment and the word that starts there has text. A tree is well formed when
  every simple command in it is.
\<close>

definition has_text :: "word_t option \<Rightarrow> bool" where
  "has_text t = list_all (\<lambda>f. string f \<noteq> None) (chain t)"

definition wf_simple :: "simple_command_t \<Rightarrow> bool" where
  "wf_simple s \<longleftrightarrow>
     has_text (inp s) \<and> has_text (out s) \<and> has_text (err s)
     \<and> (case params s of None \<Rightarrow> True | Some d \<Rightarrow> string d \<noteq> None)
     \<and> (case verb s of
          None \<Rightarrow> True
        | Some v \<Rightarrow>
            (case next_part v of
               None \<Rightarrow> True
             | Some eq \<Rightarrow>
                 (if assignment_shape v then next_part eq \<noteq> None \<and> has_text (next_part eq)
                  else True)))"

fun wf_tree :: "command_t option \<Rightarrow> bool" where
  "wf_tree None = True"
| "wf_tree (Some (Command tag c1 c2 s)) =
     ((case s of None \<Rightarrow> True | Some sc \<Rightarrow> wf_simple sc) \<and> wf_tree c1 \<and> wf_tree c2)"

text \<open>
  Two relations between the state before and after a step. \<open>env_frame K\<close>: the
  environment changed at most at the names in \<open>K\<close>. \<open>in_process K\<close>: moreover no
  \<^verbatim>\<open>fork\<close> was added to the trace. \<open>keeps R w m\<close>: the evaluation \<open>m\<close>, started in \<open>w\<close>,
  returned or ended the process in a state related to \<open>w\<close> by \<open>R\<close>. \<open>exits_in\<close> is the same
  for a call that returns a plain value.
\<close>

fun is_fork :: "event \<Rightarrow> bool" where
  "is_fork (EvFork ok) = True"
| "is_fork (EvOpen path mode ok) = False"
| "is_fork (EvExec path argv) = False"

definition env_frame :: "string set \<Rightarrow> world \<Rightarrow> world \<Rightarrow> bool" where
  "env_frame K w w' \<longleftrightarrow> (\<forall>k. k \<notin> K \<longrightarrow> env w' k = env w k)"

definition in_process :: "string set \<Rightarrow> world \<Rightarrow> world \<Rightarrow> bool" where
  "in_process K w w' \<longleftrightarrow>
     env_frame K w w' \<and> filter is_fork (trace w') = filter is_fork (trace w)"

definition keeps :: "(world \<Rightarrow> world \<Rightarrow> bool) \<Rightarrow> world \<Rightarrow> ('a \<times> world) exec \<Rightarrow> bool" where
  "keeps R w m = (case m of Return (x, w') \<Rightarrow> R w w' | Exit c w' \<Rightarrow> R w w' | Undefined \<Rightarrow> True)"

definition exits_in :: "(world \<Rightarrow> bool) \<Rightarrow> 'a exec \<Rightarrow> bool" where
  "exits_in P m = (case m of Exit c w' \<Rightarrow> P w' | _ \<Rightarrow> True)"

text \<open>
  The modes of the successful opens for writing of a path, in the order of the trace, and
  the three standard descriptors being open.
\<close>

fun write_opens :: "string \<Rightarrow> event list \<Rightarrow> open_mode list" where
  "write_opens p [] = []"
| "write_opens p (EvOpen path mode ok # es) =
     (if path = p \<and> ok \<and> mode \<noteq> O_RDONLY then mode # write_opens p es else write_opens p es)"
| "write_opens p (EvFork ok # es) = write_opens p es"
| "write_opens p (EvExec path argv # es) = write_opens p es"

definition std_open :: "world \<Rightarrow> bool" where
  "std_open w \<longleftrightarrow> fds w 0 \<noteq> None \<and> fds w 1 \<noteq> None \<and> fds w 2 \<noteq> None"

section \<open>An example world\<close>

text \<open>
  A concrete instance of the parameters, used to run the definitions on examples: status 1
  for failure, a \<^verbatim>\<open>DIE\<close> that ends the process with status 1 (and a variant whose
  \<^verbatim>\<open>DIE\<close> returns), a file system with three directories (and a variant on which every
  \<^verbatim>\<open>open\<close> fails), and three programs, one of which is killed by a signal. The process starts
  in \<^verbatim>\<open>/tmp\<close> with \<^verbatim>\<open>HOME\<close> set and the standard descriptors open; \<open>demo_world_old\<close> has
  \<^verbatim>\<open>OLDPWD\<close> set as well, to another directory.
\<close>

definition demo_headers :: headers where
  "demo_headers =
     \<lparr>FAILURE_CODE = 1, SHELL_EXIT = - 100, DIE_exit = Some 1,
      get_word = (\<lambda>w t. concat (map (\<lambda>f. case expand_token w f of None \<Rightarrow> [] | Some v \<Rightarrow> v) (chain t))),
      get_argv = (\<lambda>w s. [])\<rparr>"

definition demo_headers_quiet :: headers where
  "demo_headers_quiet = demo_headers\<lparr>DIE_exit := None\<rparr>"

definition demo_os :: os where
  "demo_os =
     \<lparr>getcwd_ok = (\<lambda>w. True),
      chdir_to = (\<lambda>w p. if p = ''/'' \<or> p = ''/home'' \<or> p = ''/tmp'' then Some p else None),
      access_ok = (\<lambda>w p. p = ''/'' \<or> p = ''/home'' \<or> p = ''/tmp''),
      open_ok = (\<lambda>w p m. True),
      fd_limit = 8,
      malloc_ok = (\<lambda>w n. True),
      fork_ok = (\<lambda>w. True),
      execvp_run = (\<lambda>w p argv.
         if p = ''true'' then Some (WEXITED 0)
         else if p = ''false'' then Some (WEXITED 1)
         else if p = ''crash'' then Some (WSIGNALED 11)
         else None)\<rparr>"

definition demo_os_closed :: os where
  "demo_os_closed = demo_os\<lparr>open_ok := (\<lambda>w p m. False)\<rparr>"

definition demo_world :: world where
  "demo_world =
     \<lparr>env = [''HOME'' \<mapsto> ''/home''], cwd = ''/tmp'',
      fds = [0 \<mapsto> Inherited 0, 1 \<mapsto> Inherited 1, 2 \<mapsto> Inherited 2], trace = []\<rparr>"

definition demo_world_old :: world where
  "demo_world_old = demo_world\<lparr>env := (env demo_world)(''OLDPWD'' \<mapsto> ''/home'')\<rparr>"

text \<open>
  Example inputs: a word of four fragments; a command that consists of a one-fragment
  verb; the commands \<^verbatim>\<open>exit\<close> and \<^verbatim>\<open>cd arg\<close>; a command whose verb is the three-fragment
  chain \<open>name eq val\<close>; a command with output and error redirected to the file \<^verbatim>\<open>f\<close>.
\<close>

definition demo_word :: word_t where
  "demo_word =
     Word (Some ''pre'') False
       (Some (Word (Some ''HOME'') True
          (Some (Word (Some ''UNSET'') True
             (Some (Word (Some ''/x'') False None None)) None)) None)) None"

definition demo_simple :: "string \<Rightarrow> simple_command_t" where
  "demo_simple name =
     \<lparr>verb = Some (Word (Some name) False None None), params = None,
      inp = None, out = None, err = None, io_flags = 0\<rparr>"

definition demo_leaf :: "string \<Rightarrow> command_t" where
  "demo_leaf name = Command OP_NONE None None (Some (demo_simple name))"

definition demo_exit :: command_t where
  "demo_exit = demo_leaf ''exit''"

definition demo_cd :: "string \<Rightarrow> command_t" where
  "demo_cd arg =
     Command OP_NONE None None
       (Some ((demo_simple ''cd'')\<lparr>params := Some (Word (Some arg) False None None)\<rparr>))"

definition demo_assign :: "string \<Rightarrow> string \<Rightarrow> string \<Rightarrow> command_t" where
  "demo_assign name eq val =
     Command OP_NONE None None
       (Some ((demo_simple name)
          \<lparr>verb := Some (Word (Some name) False
             (Some (Word (Some eq) False (Some (Word (Some val) False None None)) None)) None)\<rparr>))"

definition demo_both :: "int \<Rightarrow> simple_command_t" where
  "demo_both flags =
     (demo_simple ''ls'')\<lparr>out := Some (Word (Some ''f'') False None None),
                          err := Some (Word (Some ''f'') False None None),
                          io_flags := flags\<rparr>"

section \<open>Word resolver: the two loops compute the concatenation\<close>

lemma count_length_chain:
  "those (map (expand_token w) (chain t)) = Some vs \<Longrightarrow>
   count_length w t n = Some (n + length (concat vs))"
proof (induction w t n arbitrary: vs rule: count_length.induct)
  case (1 w value_length)
  then show ?case by simp
next
  case (2 w s e np nw value_length)
  from "2.prems" obtain v vs' where ex: "expand_token w (Word s e np nw) = Some v"
    and rest: "those (map (expand_token w) (chain np)) = Some vs'" and vs: "vs = v # vs'"
    by (auto split: option.splits)
  from "2.IH"[OF ex rest] show ?case
    by (simp add: ex vs)
qed

lemma strcat_parts_chain:
  "those (map (expand_token w) (chain t)) = Some vs \<Longrightarrow>
   length val + length (concat vs) + 1 \<le> cap \<Longrightarrow>
   strcat_parts w t cap val = Some (val @ concat vs)"
proof (induction w t cap val arbitrary: vs rule: strcat_parts.induct)
  case (1 w cap val)
  then show ?case by simp
next
  case (2 w s e np nw cap val)
  from "2.prems"(1) obtain v vs' where ex: "expand_token w (Word s e np nw) = Some v"
    and rest: "those (map (expand_token w) (chain np)) = Some vs'" and vs: "vs = v # vs'"
    by (auto split: option.splits)
  have fits: "\<not> cap < length val + length v + 1"
    using "2.prems"(2) by (simp add: vs)
  have room: "length (val @ v) + length (concat vs') + 1 \<le> cap"
    using "2.prems"(2) by (simp add: vs)
  from "2.IH"[OF ex fits rest room] show ?case
    using fits by (simp add: ex vs)
qed

lemma token_to_string_chain:
  assumes "those (map (expand_token w) (chain (Some t))) = Some vs"
    and "malloc_ok os w (Suc (length (concat vs)))"
  shows "token_to_string h os w (Some t) = Return (Some (concat vs))"
proof -
  obtain s e np nw where t: "t = Word s e np nw" by (cases t)
  from assms(1) t obtain v vs' where ex: "expand_token w t = Some v"
    and rest: "those (map (expand_token w) (chain np)) = Some vs'" and vs: "vs = v # vs'"
    by (auto split: option.splits)
  let ?n = "Suc (length v + length (concat vs'))"
  have cl: "count_length w (next_part t) (Suc (length v)) = Some ?n"
    using count_length_chain[OF rest, of "Suc (length v)"] t by simp
  have sc: "strcat_parts w (next_part t) ?n v = Some (v @ concat vs')"
    using strcat_parts_chain[OF rest, of v ?n] t by simp
  have m: "malloc_ok os w ?n"
    using assms(2) by (simp add: vs)
  show ?thesis
    by (simp add: token_to_string_def ex cl sc m vs)
qed

text \<open>
  C9. Word resolution. A fragment marked for expansion resolves to the value of the
  environment variable named by its text, or to the empty string when the variable is
  unset; an unmarked fragment resolves to its text unchanged. A null chain resolves to
  absent (\<^verbatim>\<open>NULL\<close>). A non-empty chain whose fragments all resolve resolves to the
  concatenation of their resolutions in chain order, provided the buffer of that length
  plus one can be allocated; the copy never writes past the buffer.
\<close>

theorem word_resolution:
  "expand_token w (Word (Some name) True np nw) =
     Some (case env w name of None \<Rightarrow> [] | Some v \<Rightarrow> v)
   \<and> expand_token w (Word (Some str) False np nw) = Some str
   \<and> token_to_string h os w None = Return None
   \<and> (those (map (expand_token w) (chain (Some t))) = Some vs
        \<and> malloc_ok os w (Suc (length (concat vs)))
      \<longrightarrow> token_to_string h os w (Some t) = Return (Some (concat vs)))"
proof (intro conjI impI)
  show "expand_token w (Word (Some name) True np nw) =
     Some (case env w name of None \<Rightarrow> [] | Some v \<Rightarrow> v)"
    by (simp add: expand_token_def sys_getenv_def split: option.split)
  show "expand_token w (Word (Some str) False np nw) = Some str"
    by (simp add: expand_token_def)
  show "token_to_string h os w None = Return None"
    by (simp add: token_to_string_def)
  show "token_to_string h os w (Some t) = Return (Some (concat vs))"
    if "those (map (expand_token w) (chain (Some t))) = Some vs
        \<and> malloc_ok os w (Suc (length (concat vs)))"
    using that token_to_string_chain by blast
qed

theorem word_resolution_witness:
  "those (map (expand_token demo_world) (chain (Some demo_word))) = Some [''pre'', ''/home'', [], ''/x'']
   \<and> malloc_ok demo_os demo_world (Suc (length (concat [''pre'', ''/home'', [], ''/x''])))
   \<and> token_to_string demo_headers demo_os demo_world (Some demo_word) = Return (Some ''pre/home/x'')"
proof -
  have a: "those (map (expand_token demo_world) (chain (Some demo_word))) = Some [''pre'', ''/home'', [], ''/x'']"
    by (simp add: demo_word_def demo_world_def expand_token_def sys_getenv_def)
  have b: "malloc_ok demo_os demo_world (Suc (length (concat [''pre'', ''/home'', [], ''/x''])))"
    by (simp add: demo_os_def)
  from word_resolution[of demo_world _ _ _ _ demo_headers demo_os demo_word "[''pre'', ''/home'', [], ''/x'']"] a b
  show ?thesis by simp
qed

section \<open>Running the example commands\<close>

lemma manage_redirections_none:
  "inp s = None \<Longrightarrow> out s = None \<Longrightarrow> err s = None \<Longrightarrow>
   manage_redirections h os (Some s) w = Return (True, w)"
  by (simp add: manage_redirections_def and_then_def)

lemma demo_get_word: "get_word demo_headers w (Some (Word (Some name) False None None)) = name"
  by (simp add: demo_headers_def expand_token_def)

lemma demo_external:
  "execute_external_command demo_headers demo_os (demo_simple name) w =
     Return
       (case execvp_run demo_os (w\<lparr>trace := trace w @ [EvFork True, EvExec name []]\<rparr>) name [] of
          Some (WEXITED c) \<Rightarrow> c
        | Some _ \<Rightarrow> 0
        | None \<Rightarrow> 1,
        w\<lparr>trace := trace w @ [EvFork True, EvExec name []]\<rparr>)"
proof -
  have r: "manage_redirections demo_headers demo_os (Some (demo_simple name)) w' = Return (True, w')" for w'
    by (rule manage_redirections_none) (simp_all add: demo_simple_def)
  have g: "get_word demo_headers w' (verb (demo_simple name)) = name" for w'
    by (simp add: demo_simple_def demo_get_word)
  have a: "get_argv demo_headers w' s = []" for w' s
    by (simp add: demo_headers_def)
  have f: "fork_ok demo_os w' = True" and fc: "FAILURE_CODE demo_headers = 1" for w'
    by (simp_all add: demo_os_def demo_headers_def)
  show ?thesis
    by (simp add: execute_external_command_def child_process_def r g a f fc and_then_def
        SUCCESS_CODE_def Let_def split: option.split wstatus.split)
qed

lemma demo_leaf_external:
  "name \<noteq> ''cd'' \<Longrightarrow> name \<noteq> ''exit'' \<Longrightarrow> name \<noteq> ''quit'' \<Longrightarrow>
   parse_command demo_headers demo_os (Some (demo_leaf name)) w =
     execute_external_command demo_headers demo_os (demo_simple name) w"
  by (simp add: demo_leaf_def parse_simple_def demo_simple_def)

lemma demo_true:
  "parse_command demo_headers demo_os (Some (demo_leaf ''true'')) w =
     Return (0, w\<lparr>trace := trace w @ [EvFork True, EvExec ''true'' []]\<rparr>)"
  by (simp add: demo_leaf_external demo_external) (simp add: demo_os_def)

section \<open>The AND node\<close>

text \<open>
  C1. For an AND (conditional-if-zero) node the evaluator first evaluates the left branch.
  When the left branch returns a nonzero status, the node returns success (0) in the
  state the left branch left behind: the right branch is not evaluated. When the left
  branch returns 0, the node's outcome is that of the right branch, evaluated in the
  state the left branch left behind.
\<close>

theorem and_node:
  assumes "parse_command h os c1 w = Return (r, w1)"
  shows "(r \<noteq> 0 \<longrightarrow>
            parse_command h os (Some (Command OP_CONDITIONAL_ZERO c1 c2 s)) w = Return (0, w1))
       \<and> (r = 0 \<longrightarrow>
            parse_command h os (Some (Command OP_CONDITIONAL_ZERO c1 c2 s)) w =
              parse_command h os c2 w1)"
  using assms by (simp add: and_then_def SUCCESS_CODE_def)

theorem and_node_witness:
  "parse_command demo_headers demo_os None demo_world = Return (1, demo_world)
   \<and> (1::int) \<noteq> 0
   \<and> parse_command demo_headers demo_os
        (Some (Command OP_CONDITIONAL_ZERO None (Some (demo_leaf ''true'')) None)) demo_world =
       Return (0, demo_world)
   \<and> parse_command demo_headers demo_os (Some (demo_leaf ''true'')) demo_world =
       Return (0, demo_world\<lparr>trace := trace demo_world @ [EvFork True, EvExec ''true'' []]\<rparr>)
   \<and> parse_command demo_headers demo_os
        (Some (Command OP_CONDITIONAL_ZERO (Some (demo_leaf ''true'')) None None)) demo_world =
       Return (1, demo_world\<lparr>trace := trace demo_world @ [EvFork True, EvExec ''true'' []]\<rparr>)"
proof -
  have l1: "parse_command demo_headers demo_os None demo_world = Return (1, demo_world)"
    by (simp add: demo_headers_def)
  have l2: "parse_command demo_headers demo_os (Some (demo_leaf ''true'')) demo_world =
       Return (0, demo_world\<lparr>trace := trace demo_world @ [EvFork True, EvExec ''true'' []]\<rparr>)"
    by (rule demo_true)
  have r2: "parse_command demo_headers demo_os None w = Return (1, w)" for w
    by (simp add: demo_headers_def)
  from and_node[OF l1, of "Some (demo_leaf ''true'')" None] and_node[OF l2, of None None] l1 l2 r2
  show ?thesis by simp
qed

section \<open>The termination sentinel\<close>

lemma demo_sentinel: "SHELL_EXIT demo_headers = - 100"
  by (simp add: demo_headers_def)

text \<open>
  When \<^verbatim>\<open>DIE\<close> returns and every allocation succeeds, each function of the engine hands a
  value back to its caller on a well-formed command, the terminate builtin apart.
\<close>

lemma returns_simps [simp]:
  "returns (Return x)" "\<not> returns (Exit c w)" "\<not> returns Undefined"
  by (simp_all add: returns_def)

lemma returns_DIE: "DIE_exit h = None \<Longrightarrow> returns k \<Longrightarrow> returns (DIE h w k)"
  by (simp add: DIE_def)

lemma returns_and_then:
  "returns m \<Longrightarrow> (\<And>x. m = Return x \<Longrightarrow> returns (k x)) \<Longrightarrow> returns (and_then m k)"
  by (cases m) (simp_all add: and_then_def)

lemma returns_and_then_pair:
  "returns m \<Longrightarrow> (\<And>a b. returns (k a b)) \<Longrightarrow> returns (and_then m (case_prod k))"
  by (cases m) (auto simp add: and_then_def)

lemma returns_Return: "returns m \<Longrightarrow> \<exists>x. m = Return x"
  by (cases m) simp_all

lemma has_text_expands:
  "has_text t \<Longrightarrow> \<exists>vs. those (map (expand_token w) (chain t)) = Some vs"
proof (induction t rule: chain.induct)
  case 1
  show ?case by simp
next
  case (2 s e np nw)
  from "2.prems" have np: "has_text np" and "s \<noteq> None"
    by (simp_all add: has_text_def)
  then obtain str where "s = Some str"
    by auto
  then have "\<exists>v. expand_token w (Word s e np nw) = Some v"
    by (simp add: expand_token_def split: option.split)
  then obtain v where v: "expand_token w (Word s e np nw) = Some v"
    by blast
  from "2.IH"[OF np] obtain vs where "those (map (expand_token w) (chain np)) = Some vs"
    by blast
  with v show ?case by simp
qed

lemma token_to_string_value:
  assumes "\<And>n. malloc_ok os w n" and "has_text (Some t)"
  shows "\<exists>val. token_to_string h os w (Some t) = Return (Some val)"
proof -
  from has_text_expands[OF assms(2)] obtain vs where
    "those (map (expand_token w) (chain (Some t))) = Some vs"
    by blast
  from token_to_string_chain[OF this assms(1)] show ?thesis
    by blast
qed

lemma token_to_string_option:
  assumes "\<And>n. malloc_ok os w n" and "has_text t"
  shows "\<exists>x. (if t \<noteq> None then token_to_string h os w t else Return None) = Return x
           \<and> (t \<noteq> None \<longrightarrow> x \<noteq> None)"
proof (cases t)
  case None
  then show ?thesis by simp
next
  case (Some a)
  with token_to_string_value[OF assms(1), of a h] assms(2) show ?thesis
    by auto
qed

lemma redirect_returns:
  "DIE_exit h = None \<Longrightarrow> returns (redirect h os path mode target success w)"
  by (simp add: redirect_def returns_DIE Let_def split: prod.split)

lemma redirect_combined_returns:
  "DIE_exit h = None \<Longrightarrow> returns (redirect_combined h os path success w)"
  by (simp add: redirect_combined_def returns_DIE Let_def split: prod.split)

lemma manage_redirections_returns:
  assumes d: "DIE_exit h = None" and m: "\<And>n. malloc_ok os w n" and wf: "wf_simple s"
  shows "returns (manage_redirections h os (Some s) w)"
proof -
  from wf have ht: "has_text (inp s)" "has_text (out s)" "has_text (err s)"
    by (simp_all add: wf_simple_def)
  from token_to_string_option[OF m ht(1), of h] obtain in_val where
    i: "(if inp s \<noteq> None then token_to_string h os w (inp s) else Return None) = Return in_val"
    by blast
  from token_to_string_option[OF m ht(2), of h] obtain out_val where
    ou: "(if out s \<noteq> None then token_to_string h os w (out s) else Return None) = Return out_val"
    and on: "out s \<noteq> None \<longrightarrow> out_val \<noteq> None"
    by blast
  from token_to_string_option[OF m ht(3), of h] obtain err_val where
    e: "(if err s \<noteq> None then token_to_string h os w (err s) else Return None) = Return err_val"
    and en: "err s \<noteq> None \<longrightarrow> err_val \<noteq> None"
    by blast
  have ar: "and_then (Return x) k = k x" for x :: "string option"
    and k :: "string option \<Rightarrow> (bool \<times> world) exec"
    by (simp add: and_then_def)
  have last: "returns
          (if out s \<noteq> None \<and> err s \<noteq> None then
             (case (out_val, err_val) of
                (Some out_path, Some err_path) \<Rightarrow>
                  (if out_path = err_path then redirect_combined h os out_path success w3
                   else Return (success, w3))
              | _ \<Rightarrow> Undefined)
           else Return (success, w3))" for success w3
    using on en by (auto simp add: redirect_combined_returns[OF d])
  have step: "returns (case (t, v) of
               (Some _, Some path) \<Rightarrow> redirect h os path mode target success w1
             | _ \<Rightarrow> Return (success, w1))" for t :: "word_t option" and v mode target success w1
    by (simp add: redirect_returns[OF d] split: option.split)
  show ?thesis
    unfolding manage_redirections_def option.case i ou e ar
    by (intro returns_and_then_pair step last)
qed

lemma shell_cd_returns:
  assumes "DIE_exit h = None" and "case dir of None \<Rightarrow> True | Some d \<Rightarrow> string d \<noteq> None"
  shows "returns (shell_cd h os dir w)"
  using assms
  by (auto simp add: shell_cd_def returns_DIE return_chdir_def Let_def
      split: option.split prod.split)

lemma execute_cd_returns:
  assumes d: "DIE_exit h = None" and m: "\<And>w n. malloc_ok os w n" and wf: "wf_simple s"
  shows "returns (execute_cd h os s w)"
proof -
  from wf have p: "case params s of None \<Rightarrow> True | Some d \<Rightarrow> string d \<noteq> None"
    by (simp add: wf_simple_def)
  have tail: "returns (and_then (shell_cd h os (params s) w2)
                 (\<lambda>(cd_result, w3).
                    (let (r, w4) = sys_dup2 os original STDOUT_FILENO w3 in
                     if r < 0 then DIE h w4 (Return (FAILURE_CODE h, sys_close original w4))
                     else Return (if cd_result then 1 else 0, sys_close original w4))))"
    for w2 original
    by (rule returns_and_then_pair[OF shell_cd_returns[OF d p]])
       (simp add: returns_DIE[OF d] Let_def split: prod.split)
  have body: "returns (and_then (manage_redirections h os (Some s) w1)
          (\<lambda>(ok, w2).
             if \<not> ok then Return (FAILURE_CODE h, sys_close original w2)
             else
               and_then (shell_cd h os (params s) w2)
                 (\<lambda>(cd_result, w3).
                    (let (r, w4) = sys_dup2 os original STDOUT_FILENO w3 in
                     if r < 0 then DIE h w4 (Return (FAILURE_CODE h, sys_close original w4))
                     else Return (if cd_result then 1 else 0, sys_close original w4)))))"
    for w1 original
  proof (rule returns_and_then_pair[OF manage_redirections_returns[OF d m wf]])
    fix ok w2
    from tail[of w2 original]
    show "returns (if \<not> ok then Return (FAILURE_CODE h, sys_close original w2)
             else
               and_then (shell_cd h os (params s) w2)
                 (\<lambda>(cd_result, w3).
                    (let (r, w4) = sys_dup2 os original STDOUT_FILENO w3 in
                     if r < 0 then DIE h w4 (Return (FAILURE_CODE h, sys_close original w4))
                     else Return (if cd_result then 1 else 0, sys_close original w4))))"
      by simp
  qed
  show ?thesis
    using body by (simp add: execute_cd_def Let_def returns_DIE[OF d] split: prod.split)
qed

lemma assignment_returns:
  assumes d: "DIE_exit h = None" and m: "\<And>n. malloc_ok os w n" and wf: "wf_simple s"
    and v: "verb s = Some v" "string v = Some name" "assignment_shape v"
  shows "returns (execute_env_var_assignment h os s w)"
proof -
  from v(3) obtain eq where eq: "next_part v = Some eq"
    by (auto simp add: assignment_shape_def split: option.splits)
  with wf v obtain t where t: "next_part eq = Some t" and ht: "has_text (Some t)"
    by (auto simp add: wf_simple_def)
  from token_to_string_value[OF m ht, of h] obtain val where
    "token_to_string h os w (Some t) = Return (Some val)"
    by blast
  with v eq t show ?thesis
    by (simp add: execute_env_var_assignment_def and_then_def returns_DIE[OF d] Let_def
        split: prod.split)
qed

lemma external_returns:
  assumes d: "DIE_exit h = None" and m: "\<And>w n. malloc_ok os w n" and wf: "wf_simple s"
  shows "returns (execute_external_command h os s w)"
proof -
  have c: "returns (child_process h os s w')" for w'
    using returns_Return[OF manage_redirections_returns[OF d m wf, of w']]
    by (auto simp add: child_process_def Let_def split: option.split)
  show ?thesis
    by (auto simp add: execute_external_command_def returns_DIE[OF d] c Let_def
        intro!: returns_and_then split: wstatus.split)
qed

lemma parse_simple_returns:
  assumes d: "DIE_exit h = None" and m: "\<And>w n. malloc_ok os w n"
    and wf: "wf_tree (Some (Command tag c1 c2 sp))"
    and nt: "\<not> has_terminate (Some (Command tag c1 c2 sp))"
  shows "returns (parse_simple h os sp w)"
proof (cases sp)
  case None
  then show ?thesis by (simp add: parse_simple_def)
next
  case (Some s)
  with wf have ws: "wf_simple s" by simp
  show ?thesis
  proof (cases "\<exists>v name. verb s = Some v \<and> string v = Some name")
    case False
    with Some show ?thesis
      by (auto simp add: parse_simple_def split: option.split)
  next
    case True
    then obtain v name where v: "verb s = Some v" "string v = Some name"
      by blast
    with nt Some have ne: "name \<noteq> ''exit''" "name \<noteq> ''quit''"
      by auto
    have "parse_simple h os (Some s) w =
       (if name = ''cd'' then execute_cd h os s w
        else if name = ''exit'' \<or> name = ''quit'' then shell_exit w
        else if assignment_shape v then execute_env_var_assignment h os s w
        else execute_external_command h os s w)"
      using v by (simp add: parse_simple_def assignment_shape_def)
    with ne Some show ?thesis
      by (simp add: execute_cd_returns[OF d m ws] external_returns[OF d m ws]
          assignment_returns[OF d m ws v])
  qed
qed

lemma parse_command_returns:
  "DIE_exit h = None \<Longrightarrow> (\<And>w n. malloc_ok os w n) \<Longrightarrow> wf_tree c \<Longrightarrow> \<not> has_terminate c \<Longrightarrow>
   returns (parse_command h os c w)"
proof (induction h os c w rule: parse_command.induct)
  case (1 h os w)
  show ?case by simp
next
  case (2 h os tag c1 c2 s w)
  note d = "2.prems"(1) and m = "2.prems"(2)
  from "2.prems" have n: "\<not> has_terminate c1" "\<not> has_terminate c2"
    and wfc: "wf_tree c1" "wf_tree c2"
    by simp_all
  show ?case
  proof (cases tag)
    case OP_NONE
    from parse_simple_returns[OF d m "2.prems"(3,4), of w] OP_NONE show ?thesis
      by simp
  next
    case OP_SEQUENTIAL
    have l: "returns (parse_command h os c1 w)"
      by (rule "2.IH"(1)[OF OP_SEQUENTIAL d m wfc(1) n(1)])
    then obtain r w1 where r: "parse_command h os c1 w = Return (r, w1)"
      by (cases "parse_command h os c1 w") auto
    have "returns (parse_command h os c2 w1)"
      by (rule "2.IH"(2)[OF OP_SEQUENTIAL r refl d m wfc(2) n(2)])
    with r OP_SEQUENTIAL show ?thesis by simp
  next
    case OP_CONDITIONAL_ZERO
    have l: "returns (parse_command h os c1 w)"
      by (rule "2.IH"(3)[OF OP_CONDITIONAL_ZERO d m wfc(1) n(1)])
    then obtain r w1 where r: "parse_command h os c1 w = Return (r, w1)"
      by (cases "parse_command h os c1 w") auto
    show ?thesis
    proof (cases "r \<noteq> 0")
      case True
      with r OP_CONDITIONAL_ZERO show ?thesis by simp
    next
      case False
      have "returns (parse_command h os c2 w1)"
        by (rule "2.IH"(4)[OF OP_CONDITIONAL_ZERO r refl False d m wfc(2) n(2)])
      with r False OP_CONDITIONAL_ZERO show ?thesis by simp
    qed
  next
    case OP_CONDITIONAL_NZERO
    have l: "returns (parse_command h os c1 w)"
      by (rule "2.IH"(5)[OF OP_CONDITIONAL_NZERO d m wfc(1) n(1)])
    then obtain r w1 where r: "parse_command h os c1 w = Return (r, w1)"
      by (cases "parse_command h os c1 w") auto
    show ?thesis
    proof (cases "r = 0")
      case True
      with r OP_CONDITIONAL_NZERO show ?thesis by simp
    next
      case False
      have "returns (parse_command h os c2 w1)"
        by (rule "2.IH"(6)[OF OP_CONDITIONAL_NZERO r refl False d m wfc(2) n(2)])
      with r False OP_CONDITIONAL_NZERO show ?thesis by simp
    qed
  qed simp_all
qed

text \<open>
  C5, as the spec states it, fails on the code. The node with an unrecognized tag returns
  the sentinel, but a sequence node above it drops that status: here the right branch
  still runs (its \<^verbatim>\<open>fork\<close> and \<^verbatim>\<open>execvp\<close> are in the trace) and the sequence returns 0.
\<close>

theorem sentinel_sequence_counterexample:
  "parse_command demo_headers demo_os (Some (Command (OP_OTHER 7) None None None)) demo_world =
     Return (- 100, demo_world)
   \<and> SHELL_EXIT demo_headers = - 100
   \<and> parse_command demo_headers demo_os
        (Some (Command OP_SEQUENTIAL (Some (Command (OP_OTHER 7) None None None))
           (Some (demo_leaf ''true'')) None)) demo_world =
       Return (0, demo_world\<lparr>trace := trace demo_world @ [EvFork True, EvExec ''true'' []]\<rparr>)"
  by (simp add: demo_sentinel and_then_def demo_true)

text \<open>
  C5, amended. A node with an unrecognized operator tag returns the sentinel
  \<^verbatim>\<open>SHELL_EXIT\<close> to its immediate caller and changes nothing; the caller treats it as
  any other status: a sequence node whose left branch returns (the sentinel included)
  evaluates its right branch in the state the left branch left behind. The builtin
  \<^verbatim>\<open>exit\<close>/\<^verbatim>\<open>quit\<close> ends the process with status 0, and a sequence, AND or OR node whose
  left branch ended the process evaluates nothing more. Every other error returns a status
  to the immediate caller under three conditions: the macro \<^verbatim>\<open>DIE\<close> returns, every
  allocation succeeds, and the tree is well formed. Then the evaluation of a tree that
  holds no terminate command returns a status and a state to its caller.
\<close>

theorem sentinel_is_ordinary_status:
  "parse_command h os (Some (Command (OP_OTHER n) c1 c2 s)) w = Return (SHELL_EXIT h, w)
   \<and> (parse_command h os c1 w = Return (r, w1) \<longrightarrow>
        parse_command h os (Some (Command OP_SEQUENTIAL c1 c2 s)) w = parse_command h os c2 w1)
   \<and> (verb sc = Some v \<and> (string v = Some ''exit'' \<or> string v = Some ''quit'') \<longrightarrow>
        parse_command h os (Some (Command OP_NONE c1 c2 (Some sc))) w = Exit 0 w)
   \<and> (parse_command h os c1 w = Exit c w1 \<and>
        tag \<in> {OP_SEQUENTIAL, OP_CONDITIONAL_ZERO, OP_CONDITIONAL_NZERO} \<longrightarrow>
        parse_command h os (Some (Command tag c1 c2 s)) w = Exit c w1)
   \<and> (DIE_exit h = None \<and> (\<forall>w n. malloc_ok os w n) \<and> wf_tree c0 \<and> \<not> has_terminate c0 \<longrightarrow>
        (\<exists>r' w'. parse_command h os c0 w0 = Return (r', w')))"
proof (intro conjI impI)
  show "parse_command h os (Some (Command (OP_OTHER n) c1 c2 s)) w = Return (SHELL_EXIT h, w)"
    by simp
  show "parse_command h os (Some (Command OP_SEQUENTIAL c1 c2 s)) w = parse_command h os c2 w1"
    if "parse_command h os c1 w = Return (r, w1)"
    using that by simp
  show "parse_command h os (Some (Command OP_NONE c1 c2 (Some sc))) w = Exit 0 w"
    if "verb sc = Some v \<and> (string v = Some ''exit'' \<or> string v = Some ''quit'')"
    using that by (auto simp add: parse_simple_def shell_exit_def SUCCESS_CODE_def)
  show "parse_command h os (Some (Command tag c1 c2 s)) w = Exit c w1"
    if "parse_command h os c1 w = Exit c w1 \<and>
        tag \<in> {OP_SEQUENTIAL, OP_CONDITIONAL_ZERO, OP_CONDITIONAL_NZERO}"
    using that by auto
  show "\<exists>r' w'. parse_command h os c0 w0 = Return (r', w')"
    if a: "DIE_exit h = None \<and> (\<forall>w n. malloc_ok os w n) \<and> wf_tree c0 \<and> \<not> has_terminate c0"
  proof -
    from a have "returns (parse_command h os c0 w0)"
      by (intro parse_command_returns) simp_all
    then show ?thesis
      by (cases "parse_command h os c0 w0") auto
  qed
qed

theorem sentinel_is_ordinary_status_witness:
  "parse_command demo_headers demo_os (Some (Command (OP_OTHER 7) None None None)) demo_world =
     Return (- 100, demo_world)
   \<and> parse_command demo_headers demo_os
        (Some (Command OP_SEQUENTIAL (Some (Command (OP_OTHER 7) None None None)) None None))
        demo_world = Return (1, demo_world)
   \<and> verb (demo_simple ''exit'') = Some (Word (Some ''exit'') False None None)
   \<and> parse_command demo_headers demo_os (Some demo_exit) demo_world = Exit 0 demo_world
   \<and> OP_SEQUENTIAL \<in> {OP_SEQUENTIAL, OP_CONDITIONAL_ZERO, OP_CONDITIONAL_NZERO}
   \<and> parse_command demo_headers demo_os
        (Some (Command OP_SEQUENTIAL (Some demo_exit) (Some (demo_leaf ''true'')) None))
        demo_world = Exit 0 demo_world
   \<and> DIE_exit demo_headers_quiet = None
   \<and> (\<forall>w n. malloc_ok demo_os_closed w n)
   \<and> wf_tree (Some (Command OP_NONE None None
        (Some ((demo_simple ''cd'')\<lparr>params := Some (Word (Some ''/home'') False None None),
                                  out := Some (Word (Some ''f'') False None None)\<rparr>))))
   \<and> \<not> has_terminate (Some (Command OP_NONE None None
        (Some ((demo_simple ''cd'')\<lparr>params := Some (Word (Some ''/home'') False None None),
                                  out := Some (Word (Some ''f'') False None None)\<rparr>))))
   \<and> (\<exists>r' w'. parse_command demo_headers_quiet demo_os_closed
        (Some (Command OP_NONE None None
           (Some ((demo_simple ''cd'')\<lparr>params := Some (Word (Some ''/home'') False None None),
                                     out := Some (Word (Some ''f'') False None None)\<rparr>))))
        demo_world = Return (r', w'))
   \<and> parse_command demo_headers_quiet demo_os_closed
        (Some (Command OP_NONE None None
           (Some ((demo_simple ''cd'')\<lparr>params := Some (Word (Some ''/home'') False None None),
                                     out := Some (Word (Some ''f'') False None None)\<rparr>))))
        demo_world =
       Return (1, demo_world\<lparr>trace := [EvOpen ''f'' O_WRONLY_CREAT_TRUNC False]\<rparr>)
   \<and> parse_command demo_headers demo_os_closed
        (Some (Command OP_NONE None None
           (Some ((demo_simple ''cd'')\<lparr>params := Some (Word (Some ''/home'') False None None),
                                     out := Some (Word (Some ''f'') False None None)\<rparr>))))
        demo_world =
       Exit 1 (demo_world\<lparr>fds := (fds demo_world)(3 \<mapsto> Inherited 1),
                         trace := [EvOpen ''f'' O_WRONLY_CREAT_TRUNC False]\<rparr>)"
proof -
  let ?other = "Some (Command (OP_OTHER 7) None None None)"
  let ?sc = "(demo_simple ''cd'')\<lparr>params := Some (Word (Some ''/home'') False None None),
                                  out := Some (Word (Some ''f'') False None None)\<rparr>"
  let ?tree = "Some (Command OP_NONE None None (Some ?sc))"
  have a: "parse_command demo_headers demo_os ?other demo_world = Return (- 100, demo_world)"
    by (simp add: demo_sentinel)
  have v: "verb (demo_simple ''exit'') = Some (Word (Some ''exit'') False None None)"
    by (simp add: demo_simple_def)
  have s: "string (Word (Some ''exit'') False None None) = Some ''exit''"
    by simp
  have n: "parse_command demo_headers demo_os None w = Return (1, w)" for w
    by (simp add: demo_headers_def)
  note th = sentinel_is_ordinary_status[where h = demo_headers and os = demo_os and w = demo_world]
  have e: "parse_command demo_headers demo_os (Some demo_exit) demo_world = Exit 0 demo_world"
    using th[where ?c1.0 = None and ?c2.0 = None and sc = "demo_simple ''exit''"
        and v = "Word (Some ''exit'') False None None"] v s
    by (simp add: demo_exit_def demo_leaf_def)
  have q: "parse_command demo_headers demo_os
        (Some (Command OP_SEQUENTIAL (Some demo_exit) (Some (demo_leaf ''true'')) None))
        demo_world = Exit 0 demo_world"
    using th[where ?c1.0 = "Some demo_exit" and c = 0 and ?w1.0 = demo_world
        and tag = OP_SEQUENTIAL] e
    by simp
  have b: "parse_command demo_headers demo_os
        (Some (Command OP_SEQUENTIAL ?other None None)) demo_world = Return (1, demo_world)"
    using th[where ?c1.0 = ?other and ?c2.0 = None and r = "- 100" and ?w1.0 = demo_world] a n
    by simp
  have d: "DIE_exit demo_headers_quiet = None"
    by (simp add: demo_headers_quiet_def)
  have m: "\<forall>w n. malloc_ok demo_os_closed w n"
    by (simp add: demo_os_closed_def demo_os_def)
  have wf: "wf_tree ?tree"
    by (simp add: wf_simple_def has_text_def demo_simple_def)
  have t: "\<not> has_terminate ?tree"
    by (simp add: demo_simple_def)
  have k: "\<exists>r' w'. parse_command demo_headers_quiet demo_os_closed ?tree demo_world =
      Return (r', w')"
    using sentinel_is_ordinary_status[where h = demo_headers_quiet and ?c0.0 = ?tree
        and os = demo_os_closed and ?w0.0 = demo_world] d m wf t
    by blast
  have lf: "lowest_free demo_os_closed demo_world = Some 3"
    by (simp add: lowest_free_def demo_os_closed_def demo_os_def demo_world_def upt_conv_Cons)
  have f1: "fds demo_world (Suc 0) = Some (Inherited 1)"
    by (simp add: demo_world_def)
  have du: "sys_dup demo_os_closed STDOUT_FILENO demo_world =
      (3, demo_world\<lparr>fds := (fds demo_world)(3 \<mapsto> Inherited 1)\<rparr>)"
    by (simp add: sys_dup_def STDOUT_FILENO_def lf f1)
  have tk: "token_to_string h demo_os_closed w (Some (Word (Some ''f'') False None None)) =
      Return (Some ''f'')" for h w
    by (simp add: token_to_string_def expand_token_def demo_os_closed_def demo_os_def)
  have op: "sys_open demo_os_closed ''f'' O_WRONLY_CREAT_TRUNC w =
      (- 1, w\<lparr>trace := trace w @ [EvOpen ''f'' O_WRONLY_CREAT_TRUNC False]\<rparr>)" for w
    by (simp add: sys_open_def demo_os_closed_def)
  have mq: "manage_redirections demo_headers_quiet demo_os_closed (Some ?sc) w =
      Return (False, w\<lparr>trace := trace w @ [EvOpen ''f'' O_WRONLY_CREAT_TRUNC False]\<rparr>)" for w
    by (simp add: manage_redirections_def demo_simple_def tk and_then_def redirect_def op
        out_mode_def DIE_def d sys_close_def)
  have ml: "manage_redirections demo_headers demo_os_closed (Some ?sc) w =
      Exit 1 (w\<lparr>trace := trace w @ [EvOpen ''f'' O_WRONLY_CREAT_TRUNC False]\<rparr>)" for w
    by (simp add: manage_redirections_def demo_simple_def tk and_then_def redirect_def op
        out_mode_def DIE_def demo_headers_def)
  have fc: "FAILURE_CODE demo_headers_quiet = 1"
    by (simp add: demo_headers_quiet_def demo_headers_def)
  have nm: "verb ?sc = Some (Word (Some ''cd'') False None None)"
    by (simp add: demo_simple_def)
  have pq: "parse_command demo_headers_quiet demo_os_closed ?tree demo_world =
      Return (1, demo_world\<lparr>trace := [EvOpen ''f'' O_WRONLY_CREAT_TRUNC False]\<rparr>)"
    by (simp add: parse_simple_def nm execute_cd_def du mq and_then_def sys_close_def fc)
       (simp add: demo_world_def fun_eq_iff)
  have pl: "parse_command demo_headers demo_os_closed ?tree demo_world =
      Exit 1 (demo_world\<lparr>fds := (fds demo_world)(3 \<mapsto> Inherited 1),
                         trace := [EvOpen ''f'' O_WRONLY_CREAT_TRUNC False]\<rparr>)"
    by (simp add: parse_simple_def nm execute_cd_def du ml and_then_def)
       (simp add: demo_world_def)
  from a b v e q d m wf t k pq pl show ?thesis by simp
qed

section \<open>Malformed simple commands\<close>

text \<open>
  C6, as the spec states it, fails on the code for a verb that is the empty string: the
  guard tests for \<^verbatim>\<open>NULL\<close> only, so the command is handed to the launcher, which forks a
  child (that fails to load the empty path).
\<close>

theorem empty_verb_counterexample:
  "parse_command demo_headers demo_os (Some (demo_leaf [])) demo_world =
     Return (1, demo_world\<lparr>trace := trace demo_world @ [EvFork True, EvExec [] []]\<rparr>)"
  by (simp add: demo_leaf_external demo_external) (simp add: demo_os_def)

text \<open>
  C6, amended. For every simple command that is absent, whose verb is absent, or whose
  verb has no text (\<^verbatim>\<open>NULL\<close>), evaluation returns the failure status and the state of the
  process and the trace of calls are unchanged: no process is spawned, no descriptor is
  opened or rebound, no environment variable or working directory is changed.
\<close>

theorem null_verb_no_effect:
  "null_verb sp \<Longrightarrow>
   parse_simple h os sp w = Return (FAILURE_CODE h, w)
   \<and> parse_command h os (Some (Command OP_NONE c1 c2 sp)) w = Return (FAILURE_CODE h, w)"
  by (cases sp) (auto simp add: null_verb_def parse_simple_def split: option.splits)

theorem null_verb_no_effect_witness:
  "null_verb (Some ((demo_simple ''ls'')\<lparr>verb := None\<rparr>))
   \<and> null_verb (Some ((demo_simple ''ls'')\<lparr>verb := Some (Word None False None None)\<rparr>))
   \<and> parse_command demo_headers demo_os
        (Some (Command OP_NONE None None (Some ((demo_simple ''ls'')\<lparr>verb := None\<rparr>)))) demo_world =
       Return (1, demo_world)
   \<and> parse_command demo_headers demo_os
        (Some (Command OP_NONE None None
           (Some ((demo_simple ''ls'')\<lparr>verb := Some (Word None False None None)\<rparr>)))) demo_world =
       Return (1, demo_world)"
proof -
  have a: "null_verb (Some ((demo_simple ''ls'')\<lparr>verb := None\<rparr>))"
    by (simp add: null_verb_def)
  have b: "null_verb (Some ((demo_simple ''ls'')\<lparr>verb := Some (Word None False None None)\<rparr>))"
    by (simp add: null_verb_def)
  have f: "FAILURE_CODE demo_headers = 1"
    by (simp add: demo_headers_def)
  from null_verb_no_effect[OF a, of demo_headers demo_os demo_world None None]
    null_verb_no_effect[OF b, of demo_headers demo_os demo_world None None] a b f
  show ?thesis by simp
qed

section \<open>The builtin cd\<close>

text \<open>The lowest free descriptor, as \<^verbatim>\<open>open\<close> and \<^verbatim>\<open>dup\<close> hand it out.\<close>

lemma lowest_free_Some:
  "n < fd_limit os \<Longrightarrow> fds w n = None \<Longrightarrow> (\<And>m. m < n \<Longrightarrow> fds w m \<noteq> None) \<Longrightarrow>
   lowest_free os w = Some n"
  by (auto simp add: lowest_free_def find_Some_iff intro!: exI[of _ n])

lemma lowest_free_3:
  assumes "fds w 0 \<noteq> None" "fds w (Suc 0) \<noteq> None" "fds w 2 \<noteq> None" "fds w 3 = None"
    and "3 < fd_limit os"
  shows "lowest_free os w = Some 3"
proof (rule lowest_free_Some)
  fix m :: nat
  assume "m < 3"
  then have "m = 0 \<or> m = Suc 0 \<or> m = 2" by arith
  with assms show "fds w m \<noteq> None" by auto
qed (use assms in simp_all)

lemma demo_cd_dispatch:
  "parse_command demo_headers demo_os (Some (demo_cd arg)) w =
     execute_cd demo_headers demo_os
       ((demo_simple ''cd'')\<lparr>params := Some (Word (Some arg) False None None)\<rparr>) w"
  by (simp add: demo_cd_def parse_simple_def demo_simple_def)

lemma demo_execute_cd:
  assumes "fds w 0 \<noteq> None" "fds w (Suc 0) = Some f" "fds w 2 \<noteq> None" "fds w 3 = None"
  shows "execute_cd demo_headers demo_os
       ((demo_simple ''cd'')\<lparr>params := Some (Word (Some arg) False None None)\<rparr>) w =
     and_then (shell_cd demo_headers demo_os (Some (Word (Some arg) False None None))
                 (w\<lparr>fds := (fds w)(3 \<mapsto> f)\<rparr>))
       (\<lambda>(cd_result, w3). Return (if cd_result then 1 else 0, w3\<lparr>fds := (fds w3)(Suc 0 \<mapsto> f, 3 := None)\<rparr>))"
proof -
  have lf: "lowest_free demo_os w = Some 3"
    using assms by (intro lowest_free_3) (simp_all add: demo_os_def)
  have fr: "fds w3 3 = Some f" if "shell_cd demo_headers demo_os d (w\<lparr>fds := (fds w)(3 \<mapsto> f)\<rparr>) = Return (b, w3)" for d b w3
    using that
    by (auto simp add: shell_cd_def DIE_def demo_headers_def sys_getcwd_def sys_setenv_def
        return_chdir_def sys_chdir_def Let_def
        split: option.splits if_splits prod.splits)
  have mr: "manage_redirections demo_headers demo_os
      (Some ((demo_simple ''cd'')\<lparr>params := Some (Word (Some arg) False None None)\<rparr>)) w' = Return (True, w')" for w'
    by (rule manage_redirections_none) (simp_all add: demo_simple_def)
  show ?thesis
    unfolding execute_cd_def mr
    using assms(2) lf
    by (auto simp add: sys_dup_def STDOUT_FILENO_def and_then_def sys_dup2_def sys_close_def
        demo_simple_def Let_def dest!: fr split: exec.splits prod.splits)
       (simp_all add: demo_os_def)
qed

text \<open>
  When \<^verbatim>\<open>getcwd\<close> and \<^verbatim>\<open>setenv\<close> succeed, \<^verbatim>\<open>shell_cd\<close> has overwritten \<^verbatim>\<open>OLDPWD\<close> with
  the current directory before it looks at its argument. The test for an unset \<^verbatim>\<open>OLDPWD\<close>
  in the branch for \<^verbatim>\<open>-\<close> can then never hold, and \<^verbatim>\<open>chdir\<close> is called on the current
  directory. The branches that end in \<^verbatim>\<open>return true\<close> give the \<^verbatim>\<open>bool\<close> true.
\<close>

lemma shell_cd_prologue:
  assumes "getcwd_ok os w" "malloc_ok os w (length ''OLDPWD'' + length (cwd w) + 2)"
    and "string d = Some str"
  shows "shell_cd h os (Some d) w =
     (let w1 = w\<lparr>env := (env w)(''OLDPWD'' \<mapsto> cwd w)\<rparr> in
      if str = [] \<or> str = ''~'' then return_chdir os (env w1 ''HOME'') w1
      else if str = ''..'' then return_chdir os (Some ''..'') w1
      else if str = ''.'' then Return (True, w1)
      else if str = ''-'' then return_chdir os (Some (cwd w)) w1
      else if access_ok os w1 str then return_chdir os (Some str) w1
      else Return (True, w1))"
  using assms
  by (simp add: shell_cd_def sys_getcwd_def sys_setenv_def sys_getenv_def sys_access_def Let_def)

lemma demo_world_fds:
  "fds demo_world 0 \<noteq> None" "fds demo_world (Suc 0) = Some (Inherited 1)"
  "fds demo_world 2 \<noteq> None" "fds demo_world 3 = None"
  "fds demo_world_old 0 \<noteq> None" "fds demo_world_old (Suc 0) = Some (Inherited 1)"
  "fds demo_world_old 2 \<noteq> None" "fds demo_world_old 3 = None"
  by (simp_all add: demo_world_def demo_world_old_def)

lemma demo_shell_cd:
  "shell_cd demo_headers demo_os (Some (Word (Some str) False None None)) w =
     (let w1 = w\<lparr>env := (env w)(''OLDPWD'' \<mapsto> cwd w)\<rparr> in
      if str = [] \<or> str = ''~'' then return_chdir demo_os (env w1 ''HOME'') w1
      else if str = ''..'' then return_chdir demo_os (Some ''..'') w1
      else if str = ''.'' then Return (True, w1)
      else if str = ''-'' then return_chdir demo_os (Some (cwd w)) w1
      else if access_ok demo_os w1 str then return_chdir demo_os (Some str) w1
      else Return (True, w1))"
  by (rule shell_cd_prologue) (simp_all add: demo_os_def)

text \<open>
  C2. The claim: \<^verbatim>\<open>cd -\<close> fails without a change of directory when \<^verbatim>\<open>OLDPWD\<close> is unset,
  and otherwise succeeds and changes to the value \<^verbatim>\<open>OLDPWD\<close> had before the call. The
  code, run on \<^verbatim>\<open>cd -\<close> with \<^verbatim>\<open>OLDPWD=/home\<close> in the directory \<^verbatim>\<open>/tmp\<close>: the status is 0, the
  directory is still \<^verbatim>\<open>/tmp\<close>, and \<^verbatim>\<open>OLDPWD\<close> is now \<^verbatim>\<open>/tmp\<close>. With \<^verbatim>\<open>OLDPWD\<close> unset the status
  is 0 as well.
\<close>

theorem cd_minus_stays:
  "env demo_world_old ''OLDPWD'' = Some ''/home'' \<and> cwd demo_world_old = ''/tmp''
   \<and> status_of (parse_command demo_headers demo_os (Some (demo_cd ''-'')) demo_world_old) = Some 0
   \<and> map_option cwd
        (final_world (parse_command demo_headers demo_os (Some (demo_cd ''-'')) demo_world_old)) =
       Some ''/tmp''
   \<and> map_option (\<lambda>w. env w ''OLDPWD'')
        (final_world (parse_command demo_headers demo_os (Some (demo_cd ''-'')) demo_world_old)) =
       Some (Some ''/tmp'')
   \<and> env demo_world ''OLDPWD'' = None
   \<and> status_of (parse_command demo_headers demo_os (Some (demo_cd ''-'')) demo_world) = Some 0"
  by (simp add: demo_cd_dispatch demo_execute_cd demo_world_fds demo_shell_cd and_then_def
      return_chdir_def sys_chdir_def Let_def)
     (simp add: demo_os_def demo_world_old_def demo_world_def)

text \<open>
  C7. The claim: \<^verbatim>\<open>cd .\<close> and \<^verbatim>\<open>cd\<close> to a path that does not exist report success, status
  0, without a change of directory. The code leaves the directory alone but returns the
  \<^verbatim>\<open>bool\<close> true of \<^verbatim>\<open>shell_cd\<close> as the status, which is 1; a \<^verbatim>\<open>cd\<close> that does change the
  directory returns 0.
\<close>

theorem cd_dot_status_one:
  "status_of (parse_command demo_headers demo_os (Some (demo_cd ''.'')) demo_world) = Some 1
   \<and> map_option cwd
        (final_world (parse_command demo_headers demo_os (Some (demo_cd ''.'')) demo_world)) =
       Some ''/tmp''
   \<and> \<not> access_ok demo_os demo_world ''/nowhere''
   \<and> status_of (parse_command demo_headers demo_os (Some (demo_cd ''/nowhere'')) demo_world) = Some 1
   \<and> map_option cwd
        (final_world (parse_command demo_headers demo_os (Some (demo_cd ''/nowhere'')) demo_world)) =
       Some ''/tmp''
   \<and> status_of (parse_command demo_headers demo_os (Some (demo_cd ''/home'')) demo_world) = Some 0
   \<and> map_option cwd
        (final_world (parse_command demo_headers demo_os (Some (demo_cd ''/home'')) demo_world)) =
       Some ''/home''"
  by (simp add: demo_cd_dispatch demo_execute_cd demo_world_fds demo_shell_cd and_then_def
      return_chdir_def sys_chdir_def Let_def)
     (simp add: demo_os_def demo_world_def)

section \<open>The status of an external command\<close>

text \<open>
  Once the child exists and has been waited for, the launcher returns its exit code when
  it exited normally, and falls through to \<^verbatim>\<open>return SUCCESS_CODE\<close>, that is 0, for every
  other way the child ended.
\<close>

lemma external_status:
  assumes "fork_ok os w"
    and "child_process h os s (w\<lparr>trace := trace w @ [EvFork True]\<rparr>) = Return (status, wc)"
  shows "execute_external_command h os s w =
     Return (case status of WEXITED code \<Rightarrow> code | WSIGNALED sig \<Rightarrow> 0 | WSTOPPED sig \<Rightarrow> 0,
             w\<lparr>trace := trace wc\<rparr>)"
  using assms
  by (simp add: execute_external_command_def and_then_def SUCCESS_CODE_def split: wstatus.split)

text \<open>
  C3. The claim: the exit code of a child that exited normally is returned as it is, and
  any abnormal termination gives the fixed failure status. The code, run on a program that
  is killed by a signal: the launcher returns 0, the success status, where the failure
  status is 1. The exit code 1 of a program that exits normally is returned as 1.
\<close>

theorem signaled_child_status_zero:
  "execvp_run demo_os (demo_world\<lparr>trace := [EvFork True, EvExec ''crash'' []]\<rparr>) ''crash'' [] =
     Some (WSIGNALED 11)
   \<and> FAILURE_CODE demo_headers = 1
   \<and> parse_command demo_headers demo_os (Some (demo_leaf ''crash'')) demo_world =
       Return (0, demo_world\<lparr>trace := trace demo_world @ [EvFork True, EvExec ''crash'' []]\<rparr>)
   \<and> parse_command demo_headers demo_os (Some (demo_leaf ''false'')) demo_world =
       Return (1, demo_world\<lparr>trace := trace demo_world @ [EvFork True, EvExec ''false'' []]\<rparr>)"
  by (simp add: demo_leaf_external demo_external) (simp add: demo_os_def demo_headers_def)

section \<open>Dispatch of a simple command, and environment assignment\<close>

lemma parse_simple_dispatch:
  assumes "verb s = Some v" "string v = Some name"
  shows "parse_simple h os (Some s) w =
     (if name = ''cd'' then execute_cd h os s w
      else if name = ''exit'' \<or> name = ''quit'' then shell_exit w
      else if assignment_shape v then execute_env_var_assignment h os s w
      else execute_external_command h os s w)"
  using assms by (simp add: parse_simple_def assignment_shape_def)

lemma assignment_sets:
  assumes "verb s = Some v" "string v = Some name" "next_part v = Some eq"
    and "next_part eq = Some t"
    and "those (map (expand_token w) (chain (Some t))) = Some vs"
    and "malloc_ok os w (Suc (length (concat vs)))"
    and "name \<noteq> []" "CHR ''='' \<notin> set name"
    and "malloc_ok os w (length name + length (concat vs) + 2)"
  shows "execute_env_var_assignment h os s w =
     Return (0, w\<lparr>env := (env w)(name \<mapsto> concat vs)\<rparr>)"
  using assms token_to_string_chain[OF assms(5,6), of h]
  by (simp add: execute_env_var_assignment_def and_then_def sys_setenv_def SUCCESS_CODE_def)

lemma token_to_string_single:
  "malloc_ok os w (Suc (length str)) \<Longrightarrow>
   token_to_string h os w (Some (Word (Some str) False None None)) = Return (Some str)"
  using token_to_string_chain[where t = "Word (Some str) False None None" and vs = "[str]"
      and w = w and os = os and h = h]
  by (simp add: expand_token_def)

lemma assignment_result:
  assumes "verb s = Some v" "string v = Some name" "next_part v = Some eq"
    and "next_part eq = Some t"
    and "token_to_string h os w (Some t) = Return (Some val)"
  shows "execute_env_var_assignment h os s w =
     (if name \<noteq> [] \<and> CHR ''='' \<notin> set name \<and> malloc_ok os w (length name + length val + 2)
      then Return (0, w\<lparr>env := (env w)(name \<mapsto> val)\<rparr>)
      else DIE h w (Return (FAILURE_CODE h, w)))"
  using assms
  by (simp add: execute_env_var_assignment_def and_then_def sys_setenv_def SUCCESS_CODE_def)

text \<open>
  C8, as the spec states it, fails on the code in both directions. The chain \<^verbatim>\<open>x\<close>,
  \<^verbatim>\<open>=y\<close>, \<^verbatim>\<open>z\<close>, whose second fragment is not exactly \<^verbatim>\<open>=\<close>, is run as an assignment
  and sets \<^verbatim>\<open>x\<close> to \<^verbatim>\<open>z\<close>; the chain \<^verbatim>\<open>exit\<close>, \<^verbatim>\<open>=\<close>, \<^verbatim>\<open>z\<close>, which has the shape, is run as
  the builtin and ends the process.
\<close>

theorem assignment_counterexample:
  "''=y'' \<noteq> ''=''
   \<and> parse_command demo_headers demo_os (Some (demo_assign ''x'' ''=y'' ''z'')) demo_world =
       Return (0, demo_world\<lparr>env := (env demo_world)(''x'' \<mapsto> ''z'')\<rparr>)
   \<and> parse_command demo_headers demo_os (Some (demo_assign ''exit'' ''='' ''z'')) demo_world =
       Exit 0 demo_world"
proof -
  let ?s = "(demo_simple ''x'')
          \<lparr>verb := Some (Word (Some ''x'') False
             (Some (Word (Some ''=y'') False (Some (Word (Some ''z'') False None None)) None)) None)\<rparr>"
  have a: "execute_env_var_assignment demo_headers demo_os ?s demo_world =
     Return (0, demo_world\<lparr>env := (env demo_world)(''x'' \<mapsto> concat [''z''])\<rparr>)"
    by (rule assignment_sets[where t = "Word (Some ''z'') False None None"
          and eq = "Word (Some ''=y'') False (Some (Word (Some ''z'') False None None)) None"
          and v = "Word (Some ''x'') False
             (Some (Word (Some ''=y'') False (Some (Word (Some ''z'') False None None)) None)) None"])
       (simp_all add: demo_os_def expand_token_def)
  have b: "parse_command demo_headers demo_os (Some (demo_assign ''x'' ''=y'' ''z'')) demo_world =
       execute_env_var_assignment demo_headers demo_os ?s demo_world"
    by (simp add: demo_assign_def parse_simple_def)
  have c: "parse_command demo_headers demo_os (Some (demo_assign ''exit'' ''='' ''z'')) demo_world =
       Exit 0 demo_world"
    by (simp add: demo_assign_def parse_simple_def shell_exit_def SUCCESS_CODE_def)
  from a b c show ?thesis by simp
qed

text \<open>
  C8, amended. Take a simple command whose verb has a text \<open>name\<close> in its first fragment.
  If \<open>name\<close> is \<^verbatim>\<open>cd\<close>, \<^verbatim>\<open>exit\<close> or \<^verbatim>\<open>quit\<close>, the builtin runs, whatever the rest of the chain.
  Otherwise, if the verb has no second fragment, or one whose text does not begin with
  \<^verbatim>\<open>=\<close>, the command is launched as an external command. Otherwise, if the chain has three
  or more fragments, with a second fragment whose text begins with \<^verbatim>\<open>=\<close>, the command is
  run as an environment assignment: the fragments from the third on are resolved as the
  value and, when the resolver returns a string \<open>val\<close> for them, \<^verbatim>\<open>setenv\<close> is called on
  \<open>name\<close> and \<open>val\<close>. If \<open>name\<close> is not empty, holds no \<^verbatim>\<open>=\<close>, and the new entry can be
  allocated, the variable \<open>name\<close> is set to \<open>val\<close>, overwriting any prior value, and the
  status is 0. If not, \<^verbatim>\<open>setenv\<close> refuses: nothing is set, \<^verbatim>\<open>DIE\<close> is called and, if it
  returns, the status is the failure status. Nothing is said here about a chain of exactly
  two fragments whose second begins with \<^verbatim>\<open>=\<close>.
\<close>

theorem assignment_recognized:
  assumes "verb s = Some v" "string v = Some name"
  shows "(builtin_name name \<longrightarrow>
            parse_simple h os (Some s) w =
              (if name = ''cd'' then execute_cd h os s w else shell_exit w))
       \<and> (\<not> builtin_name name \<and> \<not> assignment_shape v \<longrightarrow>
            parse_simple h os (Some s) w = execute_external_command h os s w)
       \<and> (\<not> builtin_name name \<and> assignment_shape v
            \<and> next_part v = Some eq \<and> next_part eq = Some t \<longrightarrow>
            parse_simple h os (Some s) w = execute_env_var_assignment h os s w)
       \<and> (\<not> builtin_name name \<and> assignment_shape v
            \<and> next_part v = Some eq \<and> next_part eq = Some t
            \<and> token_to_string h os w (Some t) = Return (Some val) \<longrightarrow>
            parse_simple h os (Some s) w =
              (if name \<noteq> [] \<and> CHR ''='' \<notin> set name
                  \<and> malloc_ok os w (length name + length val + 2)
               then Return (0, w\<lparr>env := (env w)(name \<mapsto> val)\<rparr>)
               else DIE h w (Return (FAILURE_CODE h, w))))"
proof -
  have d: "parse_simple h os (Some s) w =
     (if name = ''cd'' then execute_cd h os s w
      else if name = ''exit'' \<or> name = ''quit'' then shell_exit w
      else if assignment_shape v then execute_env_var_assignment h os s w
      else execute_external_command h os s w)"
    by (rule parse_simple_dispatch[OF assms])
  have c1: "parse_simple h os (Some s) w =
      (if name = ''cd'' then execute_cd h os s w else shell_exit w)" if "builtin_name name"
    using that d by (auto simp add: builtin_name_def)
  have c2: "parse_simple h os (Some s) w = execute_external_command h os s w"
    if "\<not> builtin_name name" "\<not> assignment_shape v"
    using that d by (simp add: builtin_name_def)
  have c3: "parse_simple h os (Some s) w = execute_env_var_assignment h os s w"
    if "\<not> builtin_name name" "assignment_shape v"
    using that d by (simp add: builtin_name_def)
  have c4: "parse_simple h os (Some s) w =
      (if name \<noteq> [] \<and> CHR ''='' \<notin> set name \<and> malloc_ok os w (length name + length val + 2)
       then Return (0, w\<lparr>env := (env w)(name \<mapsto> val)\<rparr>)
       else DIE h w (Return (FAILURE_CODE h, w)))"
    if "\<not> builtin_name name" "assignment_shape v" "next_part v = Some eq"
      "next_part eq = Some t" "token_to_string h os w (Some t) = Return (Some val)"
    using c3[OF that(1,2)] assignment_result[OF assms that(3,4,5)] by simp
  from c1 c2 c3 c4 show ?thesis by blast
qed

theorem assignment_recognized_witness:
  "parse_command demo_headers demo_os (Some (demo_assign ''x'' ''='' ''z'')) demo_world =
       Return (0, demo_world\<lparr>env := (env demo_world)(''x'' \<mapsto> ''z'')\<rparr>)
   \<and> parse_command demo_headers_quiet demo_os (Some (demo_assign ''a=b'' ''='' ''z''))
        demo_world = Return (1, demo_world)
   \<and> parse_command demo_headers demo_os (Some (demo_assign ''exit'' ''='' ''z'')) demo_world =
        shell_exit demo_world
   \<and> \<not> builtin_name ''true''
   \<and> \<not> assignment_shape (Word (Some ''true'') False None None)
   \<and> parse_simple demo_headers demo_os (Some (demo_simple ''true'')) demo_world =
       execute_external_command demo_headers demo_os (demo_simple ''true'') demo_world"
proof -
  let ?t = "Word (Some ''z'') False None None"
  let ?eq = "Word (Some ''='') False (Some ?t) None"
  let ?v = "\<lambda>name. Word (Some name) False (Some ?eq) None"
  let ?s = "\<lambda>name. (demo_simple name)\<lparr>verb := Some (?v name)\<rparr>"
  have nb: "\<not> builtin_name ''x''" "\<not> builtin_name ''a=b''" "\<not> builtin_name ''true''"
    "builtin_name ''exit''"
    by (simp_all add: builtin_name_def)
  have sh: "assignment_shape (?v name)"
    "\<not> assignment_shape (Word (Some ''true'') False None None)" for name
    by (simp_all add: assignment_shape_def)
  have tk: "token_to_string h demo_os demo_world (Some ?t) = Return (Some ''z'')" for h
    by (rule token_to_string_single) (simp add: demo_os_def)
  have m: "malloc_ok demo_os demo_world n" for n
    by (simp add: demo_os_def)
  have fc: "FAILURE_CODE demo_headers_quiet = 1" "DIE_exit demo_headers_quiet = None"
    by (simp_all add: demo_headers_quiet_def demo_headers_def)
  have vs: "verb (?s name) = Some (?v name)" "string (?v name) = Some name" for name
    by simp_all
  have ante: "\<not> builtin_name ''x'' \<and> assignment_shape (?v ''x'')
      \<and> next_part (?v ''x'') = Some ?eq \<and> next_part ?eq = Some ?t
      \<and> token_to_string demo_headers demo_os demo_world (Some ?t) = Return (Some ''z'')"
    using nb(1) sh(1) tk by simp
  have ante2: "\<not> builtin_name ''a=b'' \<and> assignment_shape (?v ''a=b'')
      \<and> next_part (?v ''a=b'') = Some ?eq \<and> next_part ?eq = Some ?t
      \<and> token_to_string demo_headers_quiet demo_os demo_world (Some ?t) = Return (Some ''z'')"
    using nb(2) sh(1) tk by simp
  have r1: "parse_simple demo_headers demo_os (Some (?s ''x'')) demo_world =
      Return (0, demo_world\<lparr>env := (env demo_world)(''x'' \<mapsto> ''z'')\<rparr>)"
    using assignment_recognized[OF vs, THEN conjunct2, THEN conjunct2, THEN conjunct2, THEN mp,
        OF ante] m
    by simp
  have r2: "parse_simple demo_headers_quiet demo_os (Some (?s ''a=b'')) demo_world =
      Return (1, demo_world)"
    using assignment_recognized[OF vs, THEN conjunct2, THEN conjunct2, THEN conjunct2, THEN mp,
        OF ante2]
    by (simp add: DIE_def fc)
  have r3: "parse_simple demo_headers demo_os (Some (?s ''exit'')) demo_world =
      shell_exit demo_world"
    using assignment_recognized[where s = "?s ''exit''" and v = "?v ''exit''"
        and name = "''exit''" and h = demo_headers and os = demo_os and w = demo_world,
        THEN conjunct1] nb(4)
    by simp
  have r4: "parse_simple demo_headers demo_os (Some (demo_simple ''true'')) demo_world =
       execute_external_command demo_headers demo_os (demo_simple ''true'') demo_world"
    using assignment_recognized[where s = "demo_simple ''true''"
        and v = "Word (Some ''true'') False None None" and name = "''true''"
        and w = demo_world and os = demo_os and h = demo_headers,
        THEN conjunct2, THEN conjunct1] nb(3) sh(2)
    by (simp add: demo_simple_def)
  from r1 r2 r3 r4 show ?thesis
    using nb sh by (simp add: demo_assign_def)
qed


section \<open>What a step of the engine leaves alone\<close>

lemma null_verb_no_effect_aux:
  "null_verb sp \<Longrightarrow> parse_simple h os sp w = Return (FAILURE_CODE h, w)"
  by (cases sp) (auto simp add: null_verb_def parse_simple_def split: option.splits)

lemma keeps_final_world: "keeps R w m \<Longrightarrow> final_world m = Some w' \<Longrightarrow> R w w'"
  by (cases m) (auto simp add: keeps_def)

lemma keeps_Return [simp]: "keeps R w (Return (x, w')) = R w w'"
  by (simp add: keeps_def)

lemma keeps_Exit [simp]: "keeps R w (Exit c w') = R w w'"
  by (simp add: keeps_def)

lemma keeps_Undefined [simp]: "keeps R w Undefined"
  by (simp add: keeps_def)

lemma keeps_DIE: "R w w1 \<Longrightarrow> keeps R w k \<Longrightarrow> keeps R w (DIE h w1 k)"
  by (simp add: DIE_def split: option.split)

lemma keeps_and_then:
  assumes "keeps R w m"
    and "\<And>x w1. m = Return (x, w1) \<Longrightarrow> R w w1 \<Longrightarrow> keeps R w1 (k (x, w1))"
    and "\<And>a b c. R a b \<Longrightarrow> R b c \<Longrightarrow> R a c"
  shows "keeps R w (and_then m k)"
proof (cases m)
  case (Return p)
  obtain x w1 where p: "p = (x, w1)" by (cases p)
  from assms(1) Return p have r: "R w w1" by simp
  from assms(2)[of x w1] Return p r have "keeps R w1 (k (x, w1))" by simp
  with r assms(3) have "keeps R w (k (x, w1))"
    by (cases "k (x, w1)") (auto simp add: keeps_def)
  with Return p show ?thesis by (simp add: and_then_def)
qed (use assms(1) in \<open>simp_all add: and_then_def\<close>)

lemma keeps_and_then_value:
  assumes "exits_in (R w) m" and "\<And>x. m = Return x \<Longrightarrow> keeps R w (k x)"
  shows "keeps R w (and_then m k)"
  using assms by (cases m) (simp_all add: and_then_def exits_in_def)

lemma keeps_weaken: "keeps R w m \<Longrightarrow> (\<And>w'. R w w' \<Longrightarrow> R' w w') \<Longrightarrow> keeps R' w m"
  by (cases m) (auto simp add: keeps_def)

lemma keeps_after:
  "R w w1 \<Longrightarrow> keeps R w1 m \<Longrightarrow> (\<And>a b c. R a b \<Longrightarrow> R b c \<Longrightarrow> R a c) \<Longrightarrow> keeps R w m"
  by (cases m) (auto simp add: keeps_def)

lemma env_frame_refl [simp]: "env_frame K w w"
  by (simp add: env_frame_def)

lemma env_frame_trans: "env_frame K a b \<Longrightarrow> env_frame K b c \<Longrightarrow> env_frame K a c"
  by (simp add: env_frame_def)

lemma in_process_refl [simp]: "in_process K w w"
  by (simp add: in_process_def)

lemma in_process_trans: "in_process K a b \<Longrightarrow> in_process K b c \<Longrightarrow> in_process K a c"
  by (auto simp add: in_process_def intro: env_frame_trans)

lemma in_process_mono: "in_process K w w' \<Longrightarrow> K \<subseteq> K' \<Longrightarrow> in_process K' w w'"
  by (auto simp add: in_process_def env_frame_def)

lemma token_to_string_exits: "R w w \<Longrightarrow> exits_in (R w) (token_to_string h os w t)"
  by (simp add: token_to_string_def exits_in_def DIE_def split: option.split)

lemma sys_open_in_process: "sys_open os path mode w = (fd, w1) \<Longrightarrow> in_process K w w1"
  by (auto simp add: sys_open_def in_process_def env_frame_def split: option.splits)

lemma sys_dup2_in_process: "sys_dup2 os a b w = (r, w1) \<Longrightarrow> in_process K w w1"
  by (auto simp add: sys_dup2_def in_process_def env_frame_def split: option.splits if_splits)

lemma sys_dup_in_process: "sys_dup os a w = (r, w1) \<Longrightarrow> in_process K w w1"
  by (auto simp add: sys_dup_def in_process_def env_frame_def split: option.splits if_splits)

lemma sys_close_in_process [simp]: "in_process K w (sys_close fd w)"
  by (simp add: sys_close_def in_process_def env_frame_def)

lemma sys_chdir_in_process: "sys_chdir os p w = (r, w1) \<Longrightarrow> in_process K w w1"
  by (auto simp add: sys_chdir_def in_process_def env_frame_def split: option.splits)

lemma sys_setenv_in_process: "sys_setenv os name val w = (r, w1) \<Longrightarrow> in_process {name} w w1"
  by (auto simp add: sys_setenv_def in_process_def env_frame_def split: if_splits)

lemma redirect_in_process: "keeps (in_process K) w (redirect h os path mode target success w)"
proof -
  obtain fd w1 where o: "sys_open os path mode w = (fd, w1)" by (cases "sys_open os path mode w")
  obtain r w2 where d: "sys_dup2 os fd target w1 = (r, w2)" by (cases "sys_dup2 os fd target w1")
  have 1: "in_process K w w1" using o by (rule sys_open_in_process)
  have 2: "in_process K w w2" using 1 sys_dup2_in_process[OF d] by (rule in_process_trans)
  have 3: "in_process K w (sys_close fd w1)" "in_process K w (sys_close fd w2)"
    using 1 2 in_process_trans sys_close_in_process by blast+
  show ?thesis
    using 1 2 3 by (simp add: redirect_def o d keeps_DIE)
qed

lemma redirect_combined_in_process:
  "keeps (in_process K) w (redirect_combined h os path success w)"
proof -
  obtain fd w1 where o: "sys_open os path O_WRONLY_CREAT_TRUNC w = (fd, w1)"
    by (cases "sys_open os path O_WRONLY_CREAT_TRUNC w")
  obtain r1 w2 where d1: "sys_dup2 os fd STDOUT_FILENO w1 = (r1, w2)"
    by (cases "sys_dup2 os fd STDOUT_FILENO w1")
  obtain r2 w3 where d2: "sys_dup2 os fd STDERR_FILENO w2 = (r2, w3)"
    by (cases "sys_dup2 os fd STDERR_FILENO w2")
  have 1: "in_process K w w1" using o by (rule sys_open_in_process)
  have 2: "in_process K w w2" using 1 sys_dup2_in_process[OF d1] by (rule in_process_trans)
  have 3: "in_process K w w3" using 2 sys_dup2_in_process[OF d2] by (rule in_process_trans)
  have 4: "in_process K w (sys_close fd w1)" "in_process K w (sys_close fd w2)"
    "in_process K w (sys_close fd w3)"
    using 1 2 3 in_process_trans sys_close_in_process by blast+
  show ?thesis
    using 1 2 3 4 by (simp add: redirect_combined_def o d1 d2 keeps_DIE)
qed

lemma manage_redirections_in_process:
  "keeps (in_process K) w (manage_redirections h os sp w)"
proof (cases sp)
  case None
  then show ?thesis by (simp add: manage_redirections_def)
next
  case (Some s)
  note tr = in_process_trans[of K]
  have tts: "exits_in (in_process K w) (if c then token_to_string h os w t else Return None)" for c t
    by (simp add: token_to_string_exits) (simp add: exits_in_def)
  have step: "keeps (in_process K) w1
      (case a of None \<Rightarrow> Return (success, w1)
       | Some x \<Rightarrow> (case b of None \<Rightarrow> Return (success, w1)
          | Some path \<Rightarrow> redirect h os path mode target success w1))"
    for a :: "word_t option" and b w1 mode target success
    by (auto simp add: redirect_in_process split: option.split)
  have last: "keeps (in_process K) w1
      (if c then (case a of None \<Rightarrow> Undefined
              | Some out_path \<Rightarrow> (case b of None \<Rightarrow> Undefined
                 | Some err_path \<Rightarrow>
                  (if out_path = err_path then redirect_combined h os out_path success w1
                   else Return (success, w1))))
       else Return (success, w1))" for c a b success w1
    by (auto simp add: redirect_combined_in_process split: option.split)
  show ?thesis
    unfolding manage_redirections_def Some option.case
    apply (simp only: prod.case)
    apply (rule keeps_and_then_value[where R = "in_process K"], rule tts)
    apply (rule keeps_and_then_value[where R = "in_process K"], rule tts)
    apply (rule keeps_and_then_value[where R = "in_process K"], rule tts)
    apply (rule keeps_and_then[where R = "in_process K"], rule step)
     apply (simp only: prod.case)
     apply (rule keeps_and_then[where R = "in_process K"], rule step)
      apply (simp only: prod.case)
      apply (rule keeps_and_then[where R = "in_process K"], rule step)
       apply (simp only: prod.case)
       apply (rule last)
      apply (erule (1) tr)
     apply (erule (1) tr)
    apply (erule (1) tr)
    done
qed

lemma return_chdir_in_process: "keeps (in_process K) w (return_chdir os p w)"
proof -
  obtain r w1 where c: "sys_chdir os p w = (r, w1)" by (cases "sys_chdir os p w")
  then show ?thesis by (simp add: return_chdir_def sys_chdir_in_process)
qed

lemma shell_cd_in_process: "keeps (in_process {''OLDPWD''}) w (shell_cd h os dir w)"
proof (cases "sys_getcwd os w")
  case None
  then show ?thesis by (simp add: shell_cd_def keeps_DIE)
next
  case (Some oldpwd)
  obtain ret w1 where se: "sys_setenv os ''OLDPWD'' oldpwd w = (ret, w1)"
    by (cases "sys_setenv os ''OLDPWD'' oldpwd w")
  have 1: "in_process {''OLDPWD''} w w1"
    using se by (rule sys_setenv_in_process)
  have ch: "keeps (in_process {''OLDPWD''}) w (return_chdir os p w1)" for p
    using return_chdir_in_process[of "{''OLDPWD''}" w1 os p] 1
    by (cases "return_chdir os p w1") (auto simp add: keeps_def intro: in_process_trans)
  show ?thesis
    using 1 ch by (simp add: shell_cd_def Some se keeps_DIE split: option.split)
qed

lemma execute_cd_in_process: "keeps (in_process {''OLDPWD''}) w (execute_cd h os s w)"
proof -
  let ?R = "in_process {''OLDPWD''}"
  note tr = in_process_trans[of "{''OLDPWD''}"]
  obtain original w1 where d: "sys_dup os STDOUT_FILENO w = (original, w1)"
    by (cases "sys_dup os STDOUT_FILENO w")
  have 1: "?R w w1" using d by (rule sys_dup_in_process)
  have cl: "?R a (sys_close fd b)" if "?R a b" for a b fd
    using that sys_close_in_process by (rule tr)
  have body: "keeps ?R w1
     (and_then (manage_redirections h os (Some s) w1)
          (\<lambda>(ok, w2).
             if \<not> ok then Return (FAILURE_CODE h, sys_close original w2)
             else
               and_then (shell_cd h os (params s) w2)
                 (\<lambda>(cd_result, w3).
                    (let (r, w4) = sys_dup2 os original STDOUT_FILENO w3 in
                     if r < 0 then DIE h w4 (Return (FAILURE_CODE h, sys_close original w4))
                     else Return (if cd_result then 1 else 0, sys_close original w4)))))"
  proof (rule keeps_and_then[where R = ?R, OF manage_redirections_in_process _ tr], goal_cases)
    case (1 ok w2)
    show ?case
    proof (cases ok)
      case False
      then show ?thesis by (simp add: cl)
    next
      case True
      have "keeps ?R w2
         (and_then (shell_cd h os (params s) w2)
                 (\<lambda>(cd_result, w3).
                    (let (r, w4) = sys_dup2 os original STDOUT_FILENO w3 in
                     if r < 0 then DIE h w4 (Return (FAILURE_CODE h, sys_close original w4))
                     else Return (if cd_result then 1 else 0, sys_close original w4))))"
      proof (rule keeps_and_then[where R = ?R, OF shell_cd_in_process _ tr], goal_cases)
        case (1 cd_result w3)
        obtain r w4 where d2: "sys_dup2 os original STDOUT_FILENO w3 = (r, w4)"
          by (cases "sys_dup2 os original STDOUT_FILENO w3")
        have "?R w3 w4" using d2 by (rule sys_dup2_in_process)
        then show ?case by (simp add: d2 keeps_DIE cl)
      qed
      with True show ?thesis by simp
    qed
  qed
  show ?thesis
    using 1 keeps_after[OF 1 body tr] by (simp add: execute_cd_def d keeps_DIE)
qed

lemma assignment_in_process:
  assumes "verb s = Some v" "string v = Some var"
  shows "keeps (in_process {var}) w (execute_env_var_assignment h os s w)"
proof (cases "next_part v")
  case None
  with assms show ?thesis by (simp add: execute_env_var_assignment_def)
next
  case (Some eq)
  have body: "keeps (in_process {var}) w
     (and_then (token_to_string h os w (next_part eq))
        (\<lambda>new_value.
           (case new_value of
              None \<Rightarrow> Undefined
            | Some val \<Rightarrow>
                (let (ret, w1) = sys_setenv os var val w in
                 if ret = - 1 then DIE h w1 (Return (FAILURE_CODE h, w1))
                 else Return (SUCCESS_CODE, w1)))))"
  proof (rule keeps_and_then_value[where R = "in_process {var}"], goal_cases)
    case 1
    show ?case by (rule token_to_string_exits) simp
  next
    case (2 new_value)
    show ?case
    proof (cases new_value)
      case None
      then show ?thesis by simp
    next
      case (Some val)
      obtain ret w1 where se: "sys_setenv os var val w = (ret, w1)"
        by (cases "sys_setenv os var val w")
      from sys_setenv_in_process[OF se] show ?thesis
        by (simp add: Some se keeps_DIE)
    qed
  qed
  show ?thesis
    by (simp only: execute_env_var_assignment_def assms Some option.case body)
qed

lemma external_env: "keeps (env_frame {}) w (execute_external_command h os s w)"
proof (cases "fork_ok os w")
  case False
  then show ?thesis
    by (simp add: execute_external_command_def Let_def keeps_DIE env_frame_def)
next
  case True
  show ?thesis
  proof (cases "child_process h os s (w\<lparr>trace := trace w @ [EvFork True]\<rparr>)")
    case (Return p)
    obtain status wc where "p = (status, wc)" by (cases p)
    with True Return show ?thesis
      by (simp add: execute_external_command_def and_then_def Let_def env_frame_def
          split: wstatus.split)
  next
    case (Exit c w1)
    then show ?thesis
      by (simp add: child_process_def Let_def split: exec.splits prod.splits if_splits option.splits)
  next
    case Undefined
    with True show ?thesis by (simp add: execute_external_command_def and_then_def)
  qed
qed

lemma in_process_env_frame: "in_process K w w' \<Longrightarrow> K \<subseteq> K' \<Longrightarrow> env_frame K' w w'"
  by (auto simp add: in_process_def env_frame_def)

lemma parse_simple_env: "keeps (env_frame {k. \<not> builtin_name k}) w (parse_simple h os sp w)"
proof -
  let ?K = "{k. \<not> builtin_name k}"
  show ?thesis
  proof (cases "null_verb sp")
    case True
    then show ?thesis by (simp add: null_verb_no_effect_aux)
  next
    case False
    then obtain s v name where sp: "sp = Some s" and v: "verb s = Some v"
      and name: "string v = Some name"
      by (auto simp add: null_verb_def split: option.splits)
    have cd: "keeps (env_frame ?K) w (execute_cd h os s w)"
      by (rule keeps_weaken[OF execute_cd_in_process])
         (auto elim!: in_process_env_frame simp add: builtin_name_def)
    have ex: "keeps (env_frame ?K) w (execute_external_command h os s w)"
      by (rule keeps_weaken[OF external_env]) (simp add: env_frame_def)
    have asg: "keeps (env_frame ?K) w (execute_env_var_assignment h os s w)"
      if "\<not> builtin_name name"
      by (rule keeps_weaken[OF assignment_in_process[OF v name]])
         (use that in \<open>auto elim!: in_process_env_frame\<close>)
    show ?thesis
      unfolding sp parse_simple_dispatch[OF v name]
      using cd ex asg by (auto simp add: shell_exit_def builtin_name_def)
  qed
qed

lemma parse_command_env:
  "keeps (env_frame {k. \<not> builtin_name k}) w (parse_command h os c w)"
proof (induction h os c w rule: parse_command.induct)
  case (1 h os w)
  show ?case by simp
next
  case (2 h os tag c1 c2 s w)
  let ?R = "env_frame {k. \<not> builtin_name k}"
  note tr = env_frame_trans[of "{k. \<not> builtin_name k}"]
  show ?case
  proof (cases tag)
    case OP_NONE
    then show ?thesis by (simp add: parse_simple_env)
  next
    case OP_SEQUENTIAL
    have "keeps ?R w (and_then (parse_command h os c1 w) (\<lambda>(r, w1). parse_command h os c2 w1))"
      by (rule keeps_and_then[where R = ?R, OF "2.IH"(1)[OF OP_SEQUENTIAL] _ tr])
         (simp add: "2.IH"(2)[OF OP_SEQUENTIAL])
    with OP_SEQUENTIAL show ?thesis by (simp add: and_then_def)
  next
    case OP_PARALLEL
    then show ?thesis by simp
  next
    case OP_CONDITIONAL_ZERO
    have "keeps ?R w (and_then (parse_command h os c1 w)
            (\<lambda>(r, w1). if r \<noteq> 0 then Return (SUCCESS_CODE, w1) else parse_command h os c2 w1))"
      by (rule keeps_and_then[where R = ?R, OF "2.IH"(3)[OF OP_CONDITIONAL_ZERO] _ tr])
         (simp add: "2.IH"(4)[OF OP_CONDITIONAL_ZERO])
    with OP_CONDITIONAL_ZERO show ?thesis by (simp add: and_then_def)
  next
    case OP_CONDITIONAL_NZERO
    have "keeps ?R w (and_then (parse_command h os c1 w)
            (\<lambda>(r, w1). if r = 0 then Return (SUCCESS_CODE, w1) else parse_command h os c2 w1))"
      by (rule keeps_and_then[where R = ?R, OF "2.IH"(5)[OF OP_CONDITIONAL_NZERO] _ tr])
         (simp add: "2.IH"(6)[OF OP_CONDITIONAL_NZERO])
    with OP_CONDITIONAL_NZERO show ?thesis by (simp add: and_then_def)
  next
    case OP_PIPE
    then show ?thesis by simp
  next
    case (OP_OTHER n)
    then show ?thesis by simp
  qed
qed

lemma builtin_or_assignment_in_process:
  assumes "verb s = Some v" "string v = Some name"
    and "builtin_name name \<or> assignment_shape v"
  shows "keeps (in_process {''OLDPWD'', name}) w (parse_simple h os (Some s) w)"
proof -
  have cd: "keeps (in_process {''OLDPWD'', name}) w (execute_cd h os s w)"
    by (rule keeps_weaken[OF execute_cd_in_process]) (auto elim!: in_process_mono)
  have asg: "keeps (in_process {''OLDPWD'', name}) w (execute_env_var_assignment h os s w)"
    by (rule keeps_weaken[OF assignment_in_process[OF assms(1,2)]]) (auto elim!: in_process_mono)
  show ?thesis
    unfolding parse_simple_dispatch[OF assms(1,2)]
    using cd asg assms(3) by (auto simp add: shell_exit_def builtin_name_def)
qed

text \<open>
  C10. Dispatch of a simple command with a verb that has a text. A first fragment that
  is exactly \<^verbatim>\<open>cd\<close> runs the builtin \<^verbatim>\<open>cd\<close>, one that is exactly \<^verbatim>\<open>exit\<close> or \<^verbatim>\<open>quit\<close> runs the
  terminate builtin, whatever the rest of the chain is. Otherwise a second fragment that
  begins with \<^verbatim>\<open>=\<close> makes the command an environment assignment, and only otherwise is
  the command handed to the external launcher: a builtin or an assignment adds no
  \<^verbatim>\<open>fork\<close> to the trace. Consequently no evaluation of a command tree changes the
  environment variables named \<^verbatim>\<open>cd\<close>, \<^verbatim>\<open>exit\<close> or \<^verbatim>\<open>quit\<close>.
\<close>

theorem dispatch_precedence:
  assumes "verb s = Some v" "string v = Some name"
  shows "(name = ''cd'' \<longrightarrow> parse_simple h os (Some s) w = execute_cd h os s w)
       \<and> (name = ''exit'' \<or> name = ''quit'' \<longrightarrow> parse_simple h os (Some s) w = shell_exit w)
       \<and> (\<not> builtin_name name \<and> assignment_shape v \<longrightarrow>
            parse_simple h os (Some s) w = execute_env_var_assignment h os s w)
       \<and> (\<not> builtin_name name \<and> \<not> assignment_shape v \<longrightarrow>
            parse_simple h os (Some s) w = execute_external_command h os s w)
       \<and> ((builtin_name name \<or> assignment_shape v)
            \<and> final_world (parse_simple h os (Some s) w) = Some w1 \<longrightarrow>
            filter is_fork (trace w1) = filter is_fork (trace w))
       \<and> (builtin_name k \<and> final_world (parse_command h os c w0) = Some w' \<longrightarrow>
            env w' k = env w0 k)"
proof (intro conjI impI)
  note d = parse_simple_dispatch[OF assms, of h os w]
  show "parse_simple h os (Some s) w = execute_cd h os s w" if "name = ''cd''"
    using d that by simp
  show "parse_simple h os (Some s) w = shell_exit w" if "name = ''exit'' \<or> name = ''quit''"
    using d that by auto
  show "parse_simple h os (Some s) w = execute_env_var_assignment h os s w"
    if "\<not> builtin_name name \<and> assignment_shape v"
    using d that by (simp add: builtin_name_def)
  show "parse_simple h os (Some s) w = execute_external_command h os s w"
    if "\<not> builtin_name name \<and> \<not> assignment_shape v"
    using d that by (simp add: builtin_name_def)
  show "filter is_fork (trace w1) = filter is_fork (trace w)"
    if "(builtin_name name \<or> assignment_shape v)
        \<and> final_world (parse_simple h os (Some s) w) = Some w1"
    using keeps_final_world[OF builtin_or_assignment_in_process[OF assms,
          where h = h and os = os and w = w]] that
    by (simp add: in_process_def)
  show "env w' k = env w0 k"
    if "builtin_name k \<and> final_world (parse_command h os c w0) = Some w'"
    using keeps_final_world[OF parse_command_env[where h = h and os = os and c = c and w = w0]]
      that
    by (simp add: env_frame_def)
qed

theorem dispatch_precedence_witness:
  "assignment_shape (Word (Some ''exit'') False
      (Some (Word (Some ''='') False (Some (Word (Some ''z'') False None None)) None)) None)
   \<and> parse_command demo_headers demo_os (Some (demo_assign ''exit'' ''='' ''z'')) demo_world =
       Exit 0 demo_world
   \<and> parse_command demo_headers demo_os (Some (demo_cd ''/home'')) demo_world =
       execute_cd demo_headers demo_os
         ((demo_simple ''cd'')\<lparr>params := Some (Word (Some ''/home'') False None None)\<rparr>) demo_world
   \<and> parse_command demo_headers demo_os (Some (demo_leaf ''true'')) demo_world =
       execute_external_command demo_headers demo_os (demo_simple ''true'') demo_world
   \<and> final_world (parse_command demo_headers demo_os (Some (demo_assign ''x'' ''='' ''z'')) demo_world) =
       Some (demo_world\<lparr>env := (env demo_world)(''x'' \<mapsto> ''z'')\<rparr>)
   \<and> builtin_name ''cd''
   \<and> env (demo_world\<lparr>env := (env demo_world)(''x'' \<mapsto> ''z'')\<rparr>) ''cd'' = env demo_world ''cd''
   \<and> filter is_fork (trace (demo_world\<lparr>env := (env demo_world)(''x'' \<mapsto> ''z'')\<rparr>)) =
       filter is_fork (trace demo_world)"
proof -
  let ?z = "Word (Some ''z'') False None None"
  let ?eq = "Word (Some ''='') False (Some ?z) None"
  let ?ve = "Word (Some ''exit'') False (Some ?eq) None"
  let ?vx = "Word (Some ''x'') False (Some ?eq) None"
  let ?se = "(demo_simple ''exit'')\<lparr>verb := Some ?ve\<rparr>"
  let ?sx = "(demo_simple ''x'')\<lparr>verb := Some ?vx\<rparr>"
  let ?scd = "(demo_simple ''cd'')\<lparr>params := Some (Word (Some ''/home'') False None None)\<rparr>"
  let ?wx = "demo_world\<lparr>env := (env demo_world)(''x'' \<mapsto> ''z'')\<rparr>"
  have sh: "assignment_shape ?ve" "assignment_shape ?vx"
    "\<not> assignment_shape (Word (Some ''true'') False None None)"
    by (simp_all add: assignment_shape_def)
  have bn: "builtin_name ''cd''" "\<not> builtin_name ''true''" "\<not> builtin_name ''x''"
    by (simp_all add: builtin_name_def)
  have e: "parse_simple demo_headers demo_os (Some ?se) demo_world = shell_exit demo_world"
    using dispatch_precedence[where s = ?se and v = ?ve and name = "''exit''",
        THEN conjunct2, THEN conjunct1]
    by simp
  have c: "parse_simple demo_headers demo_os (Some ?scd) demo_world =
      execute_cd demo_headers demo_os ?scd demo_world"
    using dispatch_precedence[where s = ?scd and v = "Word (Some ''cd'') False None None"
        and name = "''cd''", THEN conjunct1]
    by (simp add: demo_simple_def)
  have t: "parse_simple demo_headers demo_os (Some (demo_simple ''true'')) demo_world =
      execute_external_command demo_headers demo_os (demo_simple ''true'') demo_world"
    using dispatch_precedence[where s = "demo_simple ''true''"
        and v = "Word (Some ''true'') False None None" and name = "''true''",
        THEN conjunct2, THEN conjunct2, THEN conjunct2, THEN conjunct1] bn sh
    by (simp add: demo_simple_def)
  have x: "parse_command demo_headers demo_os (Some (demo_assign ''x'' ''='' ''z'')) demo_world =
      Return (0, ?wx)"
    using assignment_sets[where s = ?sx and v = ?vx and name = "''x''" and eq = ?eq and t = ?z
        and vs = "[''z'']" and w = demo_world and os = demo_os and h = demo_headers]
    by (simp add: demo_assign_def parse_simple_def expand_token_def) (simp add: demo_os_def)
  have fx: "final_world (parse_command demo_headers demo_os
      (Some (demo_assign ''x'' ''='' ''z'')) demo_world) = Some ?wx"
    by (simp add: x)
  have inv: "env ?wx ''cd'' = env demo_world ''cd''"
    using dispatch_precedence[where s = ?sx and v = ?vx and name = "''x''" and k = "''cd''"
        and h = demo_headers and os = demo_os
        and c = "Some (demo_assign ''x'' ''='' ''z'')" and ?w0.0 = demo_world and w' = ?wx,
        THEN conjunct2, THEN conjunct2, THEN conjunct2, THEN conjunct2, THEN conjunct2] bn(1) fx
    by simp
  have nf: "filter is_fork (trace ?wx) = filter is_fork (trace demo_world)"
    by simp
  from sh(1) e c t fx bn(1) inv nf show ?thesis
    by (simp add: demo_assign_def demo_cd_def demo_leaf_def shell_exit_def SUCCESS_CODE_def)
qed

section \<open>Output and error redirected to the same path\<close>

lemma demo_token: "token_to_string demo_headers demo_os w (Some (Word (Some str) False None None)) =
    Return (Some str)"
  by (simp add: token_to_string_def expand_token_def demo_os_def)

lemma demo_redirect:
  assumes "fds w 0 \<noteq> None" "fds w (Suc 0) \<noteq> None" "fds w 2 \<noteq> None" "fds w 3 = None"
    and "target = 0 \<or> target = 1 \<or> target = 2"
  shows "redirect demo_headers demo_os path mode target success w =
     Return (success, w\<lparr>fds := (fds w)(nat target \<mapsto> Opened (length (trace w)) path mode),
                          trace := trace w @ [EvOpen path mode True]\<rparr>)"
proof -
  have lf: "lowest_free demo_os w = Some 3"
    using assms by (intro lowest_free_3) (simp_all add: demo_os_def)
  have ok: "open_ok demo_os w path mode" "fd_limit demo_os = 8"
    by (simp_all add: demo_os_def)
  show ?thesis
    using assms(4,5)
    by (auto simp add: redirect_def sys_open_def lf ok sys_dup2_def sys_close_def fun_eq_iff)
qed

lemma demo_redirect_combined:
  assumes "fds w 0 \<noteq> None" "fds w (Suc 0) \<noteq> None" "fds w 2 \<noteq> None" "fds w 3 = None"
  shows "redirect_combined demo_headers demo_os path success w =
     Return (success,
       w\<lparr>fds := (fds w)(1 \<mapsto> Opened (length (trace w)) path O_WRONLY_CREAT_TRUNC,
                          2 \<mapsto> Opened (length (trace w)) path O_WRONLY_CREAT_TRUNC),
          trace := trace w @ [EvOpen path O_WRONLY_CREAT_TRUNC True]\<rparr>)"
proof -
  have lf: "lowest_free demo_os w = Some 3"
    using assms by (intro lowest_free_3) (simp_all add: demo_os_def)
  have ok: "open_ok demo_os w path mode" "fd_limit demo_os = 8" for mode
    by (simp_all add: demo_os_def)
  show ?thesis
    using assms(4)
    by (auto simp add: redirect_combined_def sys_open_def lf ok sys_dup2_def sys_close_def
        STDOUT_FILENO_def STDERR_FILENO_def fun_eq_iff)
qed

text \<open>
  C4, as the spec states it, fails on the code. With output and error both redirected to
  \<^verbatim>\<open>f\<close> and the append flag not set, the manager opens \<^verbatim>\<open>f\<close> three times, not once: in
  the block for the output, in the block for the error, and once more in the block for the
  combined case.
\<close>

theorem same_path_counterexample:
  "manage_redirections demo_headers demo_os (Some (demo_both 0)) demo_world =
     Return (True,
       demo_world\<lparr>fds := (fds demo_world)
                     (1 \<mapsto> Opened 2 ''f'' O_WRONLY_CREAT_TRUNC,
                      2 \<mapsto> Opened 2 ''f'' O_WRONLY_CREAT_TRUNC),
                  trace := [EvOpen ''f'' O_WRONLY_CREAT_TRUNC True,
                            EvOpen ''f'' O_WRONLY_CREAT_TRUNC True,
                            EvOpen ''f'' O_WRONLY_CREAT_TRUNC True]\<rparr>)"
  by (simp add: manage_redirections_def demo_both_def demo_simple_def demo_token and_then_def
      demo_redirect demo_redirect_combined demo_world_def out_mode_def STDOUT_FILENO_def
      STDERR_FILENO_def fun_eq_iff)

lemma lowest_free_props: "lowest_free os w = Some fd \<Longrightarrow> fds w fd = None \<and> fd < fd_limit os"
  by (auto simp add: lowest_free_def find_Some_iff)

lemma std_open_free: "std_open w \<Longrightarrow> fds w fd = None \<Longrightarrow> 3 \<le> fd"
proof (rule ccontr)
  assume a: "std_open w" "fds w fd = None" and "\<not> 3 \<le> fd"
  then have "fd = 0 \<or> fd = 1 \<or> fd = 2" by arith
  with a show False by (auto simp add: std_open_def)
qed

lemma redirect_Return:
  assumes "redirect h os path mode target success w = Return (b, w1)"
    and "std_open w" and "target = 0 \<or> target = 1 \<or> target = 2"
  shows "std_open w1 \<and>
     (b \<longrightarrow> success \<and>
        w1 = w\<lparr>fds := (fds w)(nat target \<mapsto> Opened (length (trace w)) path mode),
               trace := trace w @ [EvOpen path mode True]\<rparr>)"
proof (cases "if open_ok os w path mode then lowest_free os w else None")
  case None
  then have o: "sys_open os path mode w = (- 1, w\<lparr>trace := trace w @ [EvOpen path mode False]\<rparr>)"
    by (simp add: sys_open_def)
  from assms(1,2) show ?thesis
    by (auto simp add: redirect_def o DIE_def sys_close_def std_open_def split: option.splits)
next
  case (Some fd)
  then have lf: "lowest_free os w = Some fd"
    by (simp split: if_splits)
  from lowest_free_props[OF lf] have free: "fds w fd = None" and lim: "fd < fd_limit os"
    by simp_all
  from std_open_free[OF assms(2) free] have fd: "3 \<le> fd" .
  let ?f = "Opened (length (trace w)) path mode"
  have o: "sys_open os path mode w =
      (int fd, w\<lparr>fds := (fds w)(fd \<mapsto> ?f), trace := trace w @ [EvOpen path mode True]\<rparr>)"
    using Some by (simp add: sys_open_def)
  have t: "nat target \<noteq> fd" "nat target < fd_limit os" "0 \<le> target"
    using assms(3) fd lim by auto
  have m: "((fds w)(fd \<mapsto> ?f, nat target \<mapsto> ?f))(fd := None) = (fds w)(nat target \<mapsto> ?f)"
    using free t(1) by (auto simp add: fun_eq_iff)
  have r: "redirect h os path mode target success w =
      Return (success, w\<lparr>fds := (fds w)(nat target \<mapsto> ?f),
                          trace := trace w @ [EvOpen path mode True]\<rparr>)"
    using t by (simp add: redirect_def o sys_dup2_def sys_close_def m)
  from assms(1,2,3) show ?thesis
    unfolding r by (auto simp add: std_open_def)
qed

lemma redirect_combined_Return:
  assumes "redirect_combined h os path success w = Return (True, w1)" and "std_open w"
  shows "success \<and>
     w1 = w\<lparr>fds := (fds w)(1 \<mapsto> Opened (length (trace w)) path O_WRONLY_CREAT_TRUNC,
                            2 \<mapsto> Opened (length (trace w)) path O_WRONLY_CREAT_TRUNC),
            trace := trace w @ [EvOpen path O_WRONLY_CREAT_TRUNC True]\<rparr>"
proof (cases "if open_ok os w path O_WRONLY_CREAT_TRUNC then lowest_free os w else None")
  case None
  then have o: "sys_open os path O_WRONLY_CREAT_TRUNC w =
      (- 1, w\<lparr>trace := trace w @ [EvOpen path O_WRONLY_CREAT_TRUNC False]\<rparr>)"
    by (simp add: sys_open_def)
  from assms(1) show ?thesis
    by (auto simp add: redirect_combined_def o DIE_def split: option.splits)
next
  case (Some fd)
  then have lf: "lowest_free os w = Some fd"
    by (simp split: if_splits)
  from lowest_free_props[OF lf] have free: "fds w fd = None" and lim: "fd < fd_limit os"
    by simp_all
  from std_open_free[OF assms(2) free] have fd: "3 \<le> fd" .
  let ?f = "Opened (length (trace w)) path O_WRONLY_CREAT_TRUNC"
  have o: "sys_open os path O_WRONLY_CREAT_TRUNC w =
      (int fd, w\<lparr>fds := (fds w)(fd \<mapsto> ?f),
                  trace := trace w @ [EvOpen path O_WRONLY_CREAT_TRUNC True]\<rparr>)"
    using Some by (simp add: sys_open_def)
  have m: "((fds w)(fd \<mapsto> ?f, Suc 0 \<mapsto> ?f, 2 \<mapsto> ?f))(fd := None) = (fds w)(Suc 0 \<mapsto> ?f, 2 \<mapsto> ?f)"
    using free fd by (auto simp add: fun_eq_iff)
  have r: "redirect_combined h os path success w =
      Return (success, w\<lparr>fds := (fds w)(1 \<mapsto> ?f, 2 \<mapsto> ?f),
                          trace := trace w @ [EvOpen path O_WRONLY_CREAT_TRUNC True]\<rparr>)"
    using fd lim
    by (simp add: redirect_combined_def o sys_dup2_def sys_close_def m STDOUT_FILENO_def
        STDERR_FILENO_def)
  from assms(1) show ?thesis
    unfolding r by simp
qed

lemma and_then_Return:
  assumes "and_then m k = Return r"
  obtains x where "m = Return x" "k x = Return r"
  using assms by (cases m) (simp_all add: and_then_def)

lemma and_then_Return_pair:
  assumes "and_then m (case_prod k) = Return r"
  obtains a b where "m = Return (a, b)" "k a b = Return r"
  using assms by (cases m) (auto simp add: and_then_def)

lemma and_then_Return_eq: "and_then (Return x) k = k x"
  by (simp add: and_then_def)

lemma redirect_trace:
  assumes "redirect h os path mode target success w = Return (b, w1)"
  shows "\<exists>ok. trace w1 = trace w @ [EvOpen path mode ok]"
  using assms
  by (auto simp add: redirect_def sys_open_def sys_dup2_def sys_close_def DIE_def Let_def
      split: option.splits if_splits prod.splits)

lemma write_opens_append: "write_opens p (xs @ ys) = write_opens p xs @ write_opens p ys"
  by (induction p xs rule: write_opens.induct) simp_all

text \<open>
  C4, amended. When the output and the error chain resolve to the same path, the append
  flag is not set, the standard descriptors are open and the manager reports success, the
  manager has opened that path for writing three times, truncating each time. These three
  opens are the last calls it adds to the trace: with no input redirection they are all it
  adds, and with an input chain that resolves to a path they follow the read-only open of
  that path. On return standard output and standard error are both bound to the third of
  these opens, a single open. Nothing is said here about a shared path in append mode.
\<close>

theorem same_path_three_opens:
  assumes po: "token_to_string h os w (out s) = Return (Some p)"
    and pe: "token_to_string h os w (err s) = Return (Some p)"
    and fl: "io_flags s = 0"
    and so: "std_open w"
    and r: "manage_redirections h os (Some s) w = Return (True, w')"
  shows "write_opens p (drop (length (trace w)) (trace w')) =
           [O_WRONLY_CREAT_TRUNC, O_WRONLY_CREAT_TRUNC, O_WRONLY_CREAT_TRUNC]
       \<and> (inp s = None \<longrightarrow>
            trace w' = trace w @
              [EvOpen p O_WRONLY_CREAT_TRUNC True, EvOpen p O_WRONLY_CREAT_TRUNC True,
               EvOpen p O_WRONLY_CREAT_TRUNC True])
       \<and> (token_to_string h os w (inp s) = Return (Some q) \<longrightarrow>
            trace w' = trace w @
              [EvOpen q O_RDONLY True, EvOpen p O_WRONLY_CREAT_TRUNC True,
               EvOpen p O_WRONLY_CREAT_TRUNC True, EvOpen p O_WRONLY_CREAT_TRUNC True])
       \<and> fds w' 1 = Some (Opened (length (trace w') - 1) p O_WRONLY_CREAT_TRUNC)
       \<and> fds w' 2 = fds w' 1"
proof -
  let ?m = "O_WRONLY_CREAT_TRUNC"
  let ?E = "EvOpen p O_WRONLY_CREAT_TRUNC True"
  have m: "out_mode (io_flags s) = ?m"
    by (simp add: fl out_mode_def)
  have tn: "token_to_string h os w None = Return None"
    by (simp add: token_to_string_def)
  have nn: "out s \<noteq> None" "err s \<noteq> None"
  proof -
    show "out s \<noteq> None"
    proof
      assume "out s = None"
      with po tn show False by simp
    qed
    show "err s \<noteq> None"
    proof
      assume "err s = None"
      with pe tn show False by simp
    qed
  qed
  from nn obtain t_out t_err where oe: "out s = Some t_out" "err s = Some t_err"
    by auto
  have unfold: "manage_redirections h os (Some s) w =
      and_then (if inp s \<noteq> None then token_to_string h os w (inp s) else Return None)
        (\<lambda>in_val.
          and_then
            (case inp s of None \<Rightarrow> Return (True, w)
             | Some x \<Rightarrow> (case in_val of None \<Rightarrow> Return (True, w)
                | Some path \<Rightarrow> redirect h os path O_RDONLY STDIN_FILENO True w))
            (\<lambda>(success, w).
          and_then (redirect h os p ?m STDOUT_FILENO success w)
            (\<lambda>(success, w).
          and_then (redirect h os p ?m STDERR_FILENO success w)
            (\<lambda>(success, w). redirect_combined h os p success w))))"
    using po pe by (simp add: manage_redirections_def oe and_then_Return_eq m)
  from r[unfolded unfold] obtain in_val where
    iv: "(if inp s \<noteq> None then token_to_string h os w (inp s) else Return None) =
           Return in_val"
    and r0: "and_then
            (case inp s of None \<Rightarrow> Return (True, w)
             | Some x \<Rightarrow> (case in_val of None \<Rightarrow> Return (True, w)
                | Some path \<Rightarrow> redirect h os path O_RDONLY STDIN_FILENO True w))
            (\<lambda>(success, w).
          and_then (redirect h os p ?m STDOUT_FILENO success w)
            (\<lambda>(success, w).
          and_then (redirect h os p ?m STDERR_FILENO success w)
            (\<lambda>(success, w). redirect_combined h os p success w))) = Return (True, w')"
    by (rule and_then_Return)
  from r0 obtain b1 w1 where
    s1: "(case inp s of None \<Rightarrow> Return (True, w)
             | Some x \<Rightarrow> (case in_val of None \<Rightarrow> Return (True, w)
                | Some path \<Rightarrow> redirect h os path O_RDONLY STDIN_FILENO True w)) = Return (b1, w1)"
    and r1: "and_then (redirect h os p ?m STDOUT_FILENO b1 w1)
            (\<lambda>(success, w).
          and_then (redirect h os p ?m STDERR_FILENO success w)
            (\<lambda>(success, w). redirect_combined h os p success w)) = Return (True, w')"
    by (rule and_then_Return_pair)
  from r1 obtain b2 w2 where
    s2: "redirect h os p ?m STDOUT_FILENO b1 w1 = Return (b2, w2)"
    and r2: "and_then (redirect h os p ?m STDERR_FILENO b2 w2)
            (\<lambda>(success, w). redirect_combined h os p success w) = Return (True, w')"
    by (rule and_then_Return_pair)
  from r2 obtain b3 w3 where
    s3: "redirect h os p ?m STDERR_FILENO b2 w2 = Return (b3, w3)"
    and s4: "redirect_combined h os p b3 w3 = Return (True, w')"
    by (rule and_then_Return_pair)
  have i1: "std_open w1 \<and> (\<exists>tin. trace w1 = trace w @ tin \<and> write_opens p tin = [])"
  proof (cases "\<exists>x path. inp s = Some x \<and> in_val = Some path")
    case True
    then obtain x path where "inp s = Some x" "in_val = Some path" by blast
    with s1 have rd: "redirect h os path O_RDONLY STDIN_FILENO True w = Return (b1, w1)"
      by simp
    from redirect_Return[OF rd so] redirect_trace[OF rd] show ?thesis
      by (auto simp add: STDIN_FILENO_def)
  next
    case False
    with s1 have "w1 = w"
      by (auto split: option.splits)
    with so show ?thesis by simp
  qed
  then obtain tin where o1: "std_open w1" and t1: "trace w1 = trace w @ tin"
    and tin: "write_opens p tin = []"
    by blast
  from redirect_Return[OF s2 o1] have o2: "std_open w2"
    and w2: "b2 \<longrightarrow> b1 \<and> w2 = w1\<lparr>fds := (fds w1)(nat STDOUT_FILENO \<mapsto> Opened (length (trace w1)) p ?m),
               trace := trace w1 @ [?E]\<rparr>"
    by (simp_all add: STDOUT_FILENO_def)
  from redirect_Return[OF s3 o2] have o3: "std_open w3"
    and w3: "b3 \<longrightarrow> b2 \<and> w3 = w2\<lparr>fds := (fds w2)(nat STDERR_FILENO \<mapsto> Opened (length (trace w2)) p ?m),
               trace := trace w2 @ [?E]\<rparr>"
    by (simp_all add: STDERR_FILENO_def)
  from redirect_combined_Return[OF s4 o3] have b3: "b3"
    and w': "w' = w3\<lparr>fds := (fds w3)(1 \<mapsto> Opened (length (trace w3)) p O_WRONLY_CREAT_TRUNC,
                            2 \<mapsto> Opened (length (trace w3)) p O_WRONLY_CREAT_TRUNC),
            trace := trace w3 @ [?E]\<rparr>"
    by simp_all
  from b3 w3 have b2: "b2" and w3': "trace w3 = trace w2 @ [?E]"
    by simp_all
  from b2 w2 have b1: "b1" and w2': "trace w2 = trace w1 @ [?E]"
    by simp_all
  have tr1: "trace w' = trace w1 @ [?E, ?E, ?E]"
    by (simp add: w' w3' w2')
  have tr: "trace w' = trace w @ tin @ [?E, ?E, ?E]"
    by (simp add: tr1 t1)
  have "write_opens p (drop (length (trace w)) (trace w')) = [?m, ?m, ?m]"
    by (simp add: tr write_opens_append tin)
  moreover have "trace w' = trace w @ [?E, ?E, ?E]" if "inp s = None"
  proof -
    from s1 that have "w1 = w" by simp
    with tr1 show ?thesis by simp
  qed
  moreover have "trace w' = trace w @ [EvOpen q O_RDONLY True, ?E, ?E, ?E]"
    if tq: "token_to_string h os w (inp s) = Return (Some q)"
  proof -
    have ni: "inp s \<noteq> None"
    proof
      assume "inp s = None"
      with tq tn show False by simp
    qed
    with iv tq have "in_val = Some q" by simp
    with ni s1 have rd: "redirect h os q O_RDONLY STDIN_FILENO True w = Return (b1, w1)"
      by auto
    from redirect_Return[OF rd so] b1 have "trace w1 = trace w @ [EvOpen q O_RDONLY True]"
      by (simp add: STDIN_FILENO_def)
    with tr1 show ?thesis by simp
  qed
  moreover have "fds w' 1 = Some (Opened (length (trace w') - 1) p O_WRONLY_CREAT_TRUNC)"
    by (simp add: w')
  moreover have "fds w' 2 = fds w' 1"
    by (simp add: w')
  ultimately show ?thesis by blast
qed

theorem same_path_three_opens_witness:
  "token_to_string demo_headers demo_os demo_world (out (demo_both 0)) = Return (Some ''f'')
   \<and> token_to_string demo_headers demo_os demo_world (err (demo_both 0)) = Return (Some ''f'')
   \<and> io_flags (demo_both 0) = 0
   \<and> std_open demo_world
   \<and> inp (demo_both 0) = None
   \<and> manage_redirections demo_headers demo_os (Some (demo_both 0)) demo_world =
       Return (True,
         demo_world\<lparr>fds := (fds demo_world)
                     (1 \<mapsto> Opened 2 ''f'' O_WRONLY_CREAT_TRUNC,
                      2 \<mapsto> Opened 2 ''f'' O_WRONLY_CREAT_TRUNC),
                  trace := [EvOpen ''f'' O_WRONLY_CREAT_TRUNC True,
                            EvOpen ''f'' O_WRONLY_CREAT_TRUNC True,
                            EvOpen ''f'' O_WRONLY_CREAT_TRUNC True]\<rparr>)
   \<and> write_opens ''f''
        [EvOpen ''f'' O_WRONLY_CREAT_TRUNC True,
         EvOpen ''f'' O_WRONLY_CREAT_TRUNC True,
         EvOpen ''f'' O_WRONLY_CREAT_TRUNC True] =
       [O_WRONLY_CREAT_TRUNC, O_WRONLY_CREAT_TRUNC, O_WRONLY_CREAT_TRUNC]
   \<and> token_to_string demo_headers demo_os demo_world
        (inp ((demo_both 0)\<lparr>inp := Some (Word (Some ''f'') False None None)\<rparr>)) =
       Return (Some ''f'')
   \<and> map_option trace
        (final_world (manage_redirections demo_headers demo_os
           (Some ((demo_both 0)\<lparr>inp := Some (Word (Some ''f'') False None None)\<rparr>)) demo_world)) =
       Some [EvOpen ''f'' O_RDONLY True, EvOpen ''f'' O_WRONLY_CREAT_TRUNC True,
             EvOpen ''f'' O_WRONLY_CREAT_TRUNC True, EvOpen ''f'' O_WRONLY_CREAT_TRUNC True]"
proof -
  let ?E = "EvOpen ''f'' O_WRONLY_CREAT_TRUNC True"
  let ?w' = "demo_world\<lparr>fds := (fds demo_world)
                     (1 \<mapsto> Opened 2 ''f'' O_WRONLY_CREAT_TRUNC,
                      2 \<mapsto> Opened 2 ''f'' O_WRONLY_CREAT_TRUNC),
                  trace := [?E, ?E, ?E]\<rparr>"
  let ?si = "(demo_both 0)\<lparr>inp := Some (Word (Some ''f'') False None None)\<rparr>"
  let ?wi = "demo_world\<lparr>fds := (fds demo_world)
                     (0 \<mapsto> Opened 0 ''f'' O_RDONLY,
                      1 \<mapsto> Opened 3 ''f'' O_WRONLY_CREAT_TRUNC,
                      2 \<mapsto> Opened 3 ''f'' O_WRONLY_CREAT_TRUNC),
                  trace := [EvOpen ''f'' O_RDONLY True, ?E, ?E, ?E]\<rparr>"
  have a: "token_to_string demo_headers demo_os demo_world (out (demo_both 0)) = Return (Some ''f'')"
    "token_to_string demo_headers demo_os demo_world (err (demo_both 0)) = Return (Some ''f'')"
    by (simp_all add: demo_both_def demo_token)
  have ai: "token_to_string demo_headers demo_os demo_world (out ?si) = Return (Some ''f'')"
    "token_to_string demo_headers demo_os demo_world (err ?si) = Return (Some ''f'')"
    "token_to_string demo_headers demo_os demo_world (inp ?si) = Return (Some ''f'')"
    by (simp_all add: demo_both_def demo_token)
  have f: "io_flags (demo_both 0) = 0" "io_flags ?si = 0" "inp (demo_both 0) = None"
    by (simp_all add: demo_both_def demo_simple_def)
  have b: "std_open demo_world"
    by (simp add: std_open_def demo_world_def)
  have c: "manage_redirections demo_headers demo_os (Some (demo_both 0)) demo_world =
      Return (True, ?w')"
    by (simp add: manage_redirections_def demo_both_def demo_simple_def demo_token and_then_def
      demo_redirect demo_redirect_combined demo_world_def out_mode_def STDOUT_FILENO_def
      STDERR_FILENO_def fun_eq_iff)
  have ci: "manage_redirections demo_headers demo_os (Some ?si) demo_world = Return (True, ?wi)"
    by (simp add: manage_redirections_def demo_both_def demo_simple_def demo_token and_then_def
      demo_redirect demo_redirect_combined demo_world_def out_mode_def STDIN_FILENO_def
      STDOUT_FILENO_def STDERR_FILENO_def fun_eq_iff)
  have t0: "trace demo_world = []"
    by (simp add: demo_world_def)
  have ti: "trace ?wi = [EvOpen ''f'' O_RDONLY True, ?E, ?E, ?E]"
    using same_path_three_opens[OF ai(1,2) f(2) b ci, where q = "''f''"] ai(3) t0
    by simp
  have w0: "write_opens ''f'' (drop (length (trace demo_world)) (trace ?w')) =
      [O_WRONLY_CREAT_TRUNC, O_WRONLY_CREAT_TRUNC, O_WRONLY_CREAT_TRUNC]"
    using same_path_three_opens[OF a f(1) b c] by blast
  from w0 a f b c ai(3) ci ti show ?thesis
    by (simp add: t0)
qed

end
